theory Spec2Isabelle
  imports Complex_Main
begin

section \<open>JavaScript strings and containers\<close>

text \<open>
  Strings are character lists. The helpers below are the \<^verbatim>\<open>String.prototype\<close>
  methods the sources call, written as executable list functions.
\<close>

definition startsWith :: "string \<Rightarrow> string \<Rightarrow> bool" where
  "startsWith s p = (take (length p) s = p)"

fun str_includes :: "string \<Rightarrow> string \<Rightarrow> bool" where
  "str_includes [] sub = (sub = [])"
| "str_includes (c # cs) sub = (startsWith (c # cs) sub \<or> str_includes cs sub)"

text \<open>White space removed by \<^verbatim>\<open>trim()\<close>: tab, line feed, vertical tab, form feed,
  carriage return, space and no-break space.\<close>

definition isSpace :: "char \<Rightarrow> bool" where
  "isSpace c = (c \<in> set [CHR 0x09, CHR 0x0A, CHR 0x0B, CHR 0x0C, CHR 0x0D, CHR 0x20, CHR 0xA0])"

definition trim :: "string \<Rightarrow> string" where
  "trim s = rev (dropWhile isSpace (rev (dropWhile isSpace s)))"

text \<open>\<^verbatim>\<open>s.split('\n')\<close>: the pieces between line feeds; at least one piece.\<close>

fun splitLines :: "string \<Rightarrow> string list" where
  "splitLines [] = [[]]"
| "splitLines (c # cs) =
     (if c = CHR 0x0A then [] # splitLines cs
      else (case splitLines cs of [] \<Rightarrow> [[c]] | l # ls \<Rightarrow> (c # l) # ls))"

text \<open>\<^verbatim>\<open>s.replace(pat, rep)\<close> with a string pattern: the first occurrence only.\<close>

fun replaceFirst :: "string \<Rightarrow> string \<Rightarrow> string \<Rightarrow> string" where
  "replaceFirst [] pat rep = (if pat = [] then rep else [])"
| "replaceFirst (c # cs) pat rep =
     (if startsWith (c # cs) pat then rep @ drop (length pat) (c # cs)
      else c # replaceFirst cs pat rep)"

text \<open>\<^verbatim>\<open>path.replace(/\*/g, '.*')\<close>: every star becomes dot-star.\<close>

definition replaceStars :: "string \<Rightarrow> string" where
  "replaceStars s = concat (map (\<lambda>c. if c = CHR ''*'' then ''.*'' else [c]) s)"

text \<open>\<^verbatim>\<open>a || b\<close> on optional strings: \<^verbatim>\<open>undefined\<close> and the empty string are falsy.\<close>

definition truthy :: "string option \<Rightarrow> bool" where
  "truthy x = (case x of None \<Rightarrow> False | Some s \<Rightarrow> s \<noteq> [])"

definition orElse :: "string option \<Rightarrow> string option \<Rightarrow> string option" where
  "orElse a b = (if truthy a then a else b)"

text \<open>
  A \<^verbatim>\<open>Set<string>\<close> keeps its members in insertion order without repetition; a
  \<^verbatim>\<open>Map<string, V>\<close> keeps its keys in insertion order, and \<^verbatim>\<open>set\<close> on a present
  key replaces the value in place.
\<close>

definition Set_add :: "string list \<Rightarrow> string \<Rightarrow> string list" where
  "Set_add xs x = (if x \<in> set xs then xs else xs @ [x])"

definition Set_of :: "string list \<Rightarrow> string list" where
  "Set_of xs = foldl Set_add [] xs"

definition Map_has :: "(string \<times> 'v) list \<Rightarrow> string \<Rightarrow> bool" where
  "Map_has m k = (k \<in> set (map fst m))"

fun Map_set :: "(string \<times> 'v) list \<Rightarrow> string \<Rightarrow> 'v \<Rightarrow> (string \<times> 'v) list" where
  "Map_set [] k v = [(k, v)]"
| "Map_set ((k', v') # m) k v = (if k' = k then (k, v) # m else (k', v') # Map_set m k v)"

definition Map_size :: "(string \<times> 'v) list \<Rightarrow> int" where
  "Map_size m = int (length m)"

definition Map_values :: "(string \<times> 'v) list \<Rightarrow> 'v list" where
  "Map_values m = map snd m"

text \<open>
  A number that a caller passes in (a limit, a delay, a timeout) is a JavaScript \<^verbatim>\<open>number\<close>,
  which need not be whole: the tool schema declares these arguments as \<^verbatim>\<open>number\<close> with a
  range. Such a number is a rational here; \<^verbatim>\<open>NaN\<close> and the infinities are left out. Numbers
  that the code computes itself (sizes, counts, depths, times, status codes) are integers.
\<close>

type_synonym number = rat

text \<open>\<^verbatim>\<open>ToIntegerOrInfinity\<close>: the fraction is dropped, towards zero.\<close>

definition toInteger :: "number \<Rightarrow> int" where
  "toInteger x = (if 0 \<le> x then \<lfloor>x\<rfloor> else \<lceil>x\<rceil>)"

text \<open>\<^verbatim>\<open>xs.slice(0, n)\<close>: the end is made an integer; a negative end counts from the end of the
  array.\<close>

definition slice0 :: "'a list \<Rightarrow> number \<Rightarrow> 'a list" where
  "slice0 xs n = (let k = toInteger n in
                  if k < 0 then take (nat (int (length xs) + k)) xs else take (nat k) xs)"

section \<open>The platform\<close>

text \<open>
  The sources run on Node.js and call libraries that are not part of the repository: the
  WHATWG \<^verbatim>\<open>URL\<close> class, \<^verbatim>\<open>RegExp\<close>, \<^verbatim>\<open>Date\<close>, the file system, and the HTTP client
  with the HTML and XML parsers on top of it. They are parameters of the model, collected in
  one record. \<open>'w\<close> is the state of the outside world (network, clock, disk); every call
  that touches it takes the world and returns the next one. A value \<open>Inl e\<close> is a thrown
  exception.
\<close>

record URL =
  protocol :: string
  host :: string
  hostname :: string
  pathname :: string
  search :: string
  hash :: string
  origin :: string
  href :: string

text \<open>A thrown value: whether it is an \<^verbatim>\<open>Error\<close> instance, its \<^verbatim>\<open>code\<close> property, its
  \<^verbatim>\<open>message\<close>, and what \<^verbatim>\<open>String(error)\<close> yields.\<close>

record thrown =
  isError :: bool
  code :: "string option"
  message :: string
  asString :: string

definition errorMsgOf :: "thrown \<Rightarrow> string" where
  "errorMsgOf e = (if isError e then message e else asString e)"

definition new_Error :: "string \<Rightarrow> thrown" where
  "new_Error m = \<lparr>isError = True, code = None, message = m, asString = ''Error: '' @ m\<rparr>"

text \<open>
  The response of \<^verbatim>\<open>axios.head\<close>. \<open>r_request\<close> is \<open>None\<close> when \<^verbatim>\<open>response.request\<close> is
  falsy, and otherwise holds its \<^verbatim>\<open>url\<close> property, \<open>None\<close> when that is undefined. On Node.js
  \<^verbatim>\<open>response.request\<close> is the \<^verbatim>\<open>ClientRequest\<close> of the last hop, which has no \<^verbatim>\<open>url\<close> property,
  so the client's responses have \<open>r_request = Some None\<close>. \<open>r_responseUrl\<close> is the URL that
  the answered request went to after all redirects (\<^verbatim>\<open>response.request.res.responseUrl\<close>); the
  code never reads it.
\<close>

record AxiosResponse =
  r_status :: int
  r_statusText :: string
  r_request :: "string option option"
  r_responseUrl :: string
  r_dataLocation :: "string option"
  r_headersLocation :: "string option"

text \<open>What the cheerio selectors of \<^verbatim>\<open>crawlPage\<close> yield on a fetched document; \<open>f_hrefs\<close>
  are the \<^verbatim>\<open>href\<close> attributes of the anchors, in document order.\<close>

record PageFacts =
  f_title :: string
  f_description :: string
  f_h1 :: string
  f_canonical :: string
  f_ogImage :: string
  f_ogTitle :: string
  f_ogDescription :: string
  f_h1s :: "string list"
  f_h2s :: "string list"
  f_h3s :: "string list"
  f_hrefs :: "string list"
  f_noindex :: bool
  f_wordCount :: int

record PageLinks =
  internal :: "string list"
  external :: "string list"

record PageHeadings =
  hd_h1 :: "string list"
  hd_h2 :: "string list"
  hd_h3 :: "string list"

record PageMetadata =
  url :: string
  title :: string
  description :: string
  h1 :: string
  canonical :: string
  ogImage :: string
  ogTitle :: string
  ogDescription :: string
  wordCount :: int
  links :: PageLinks
  headings :: PageHeadings
  isIndexed :: bool
  noindex :: bool

record 'w platform =
  new_URL :: "string \<Rightarrow> URL option"
  new_URL_base :: "string \<Rightarrow> string \<Rightarrow> URL option"
  RegExp_ok :: "string \<Rightarrow> bool"
  RegExp_test :: "string \<Rightarrow> string \<Rightarrow> bool"
  Date_now :: "'w \<Rightarrow> int"
  Date_iso :: "'w \<Rightarrow> string"
  sleep :: "number \<Rightarrow> 'w \<Rightarrow> 'w"
  axios_head :: "string \<Rightarrow> number \<Rightarrow> 'w \<Rightarrow> (thrown + AxiosResponse) \<times> 'w"
  get_page :: "string \<Rightarrow> 'w \<Rightarrow> (thrown + PageFacts) \<times> 'w"
  get_sitemap :: "string \<Rightarrow> 'w \<Rightarrow> (thrown + string option list option) \<times> 'w"
  get_text :: "string \<Rightarrow> 'w \<Rightarrow> (thrown + string) \<times> 'w"
  make_dirs :: "string \<Rightarrow> 'w \<Rightarrow> thrown + 'w"
  write_json :: "string \<Rightarrow> 'w \<Rightarrow> thrown + 'w"
  read_pages :: "string \<Rightarrow> 'w \<Rightarrow> PageMetadata list option"
  env_REVIEW_WORK_DIR :: "string option"

section \<open>utils\<close>

definition isValidUrl :: "'w platform \<Rightarrow> string \<Rightarrow> bool" where
  "isValidUrl P u = (case new_URL P u of None \<Rightarrow> False | Some _ \<Rightarrow> True)"

definition extractDomain :: "'w platform \<Rightarrow> string \<Rightarrow> string" where
  "extractDomain P u =
     (case new_URL P u of
        None \<Rightarrow> ''unknown-domain''
      | Some urlObj \<Rightarrow> replaceFirst (hostname urlObj) ''www.'' [])"

definition isSameDomain :: "'w platform \<Rightarrow> string \<Rightarrow> string \<Rightarrow> bool" where
  "isSameDomain P url1 url2 =
     (case new_URL P url1 of
        None \<Rightarrow> False
      | Some u1 \<Rightarrow>
          (case new_URL P url2 of
             None \<Rightarrow> False
           | Some u2 \<Rightarrow> hostname u1 = hostname u2))"

text \<open>\<^verbatim>\<open>normalizeUrl(url, baseUrl?)\<close>: the optional base is \<open>None\<close> when absent;
  \<^verbatim>\<open>!baseUrl\<close> also holds for the empty string. Every exception of the body is caught and
  gives back \<open>url\<close>.\<close>

definition normalizeUrl :: "'w platform \<Rightarrow> string \<Rightarrow> string option \<Rightarrow> string" where
  "normalizeUrl P u baseUrl =
     (if startsWith u ''http://'' \<or> startsWith u ''https://'' then u
      else if \<not> truthy baseUrl then u
      else
        (case new_URL P (the baseUrl) of
           None \<Rightarrow> u
         | Some base \<Rightarrow>
             if startsWith u ''/'' then protocol base @ ''//'' @ host base @ u
             else if startsWith u ''#'' \<or> startsWith u ''?'' then the baseUrl @ u
             else
               (case new_URL_base P u (the baseUrl) of
                  None \<Rightarrow> u
                | Some r \<Rightarrow> href r)))"

subsection \<open>robots.txt\<close>

text \<open>
  The parser's loop variables. A \<^verbatim>\<open>RegExp\<close> is represented by its source text;
  \<^verbatim>\<open>new RegExp(src)\<close> throws a \<^verbatim>\<open>SyntaxError\<close> where \<open>RegExp_ok\<close> is false, which ends
  \<^verbatim>\<open>parseRobotsText\<close> with that exception.
\<close>

record RobotsState =
  currentAgent :: string
  allow :: "string list"
  disallow :: "string list"
  canSitemap :: bool

definition robotsInit :: RobotsState where
  "robotsInit = \<lparr>currentAgent = [], allow = [], disallow = [], canSitemap = True\<rparr>"

definition new_RegExp :: "'w platform \<Rightarrow> string \<Rightarrow> thrown + string" where
  "new_RegExp P src =
     (if RegExp_ok P src then Inr src
      else Inl \<lparr>isError = True, code = None,
                message = ''Invalid regular expression: /'' @ src @ ''/'',
                asString = ''SyntaxError: Invalid regular expression: /'' @ src @ ''/''\<rparr>)"

definition robotsLine :: "'w platform \<Rightarrow> string \<Rightarrow> string \<Rightarrow> RobotsState \<Rightarrow> thrown + RobotsState" where
  "robotsLine P userAgent line st =
     (let trimmed = trim line in
      if startsWith trimmed ''User-agent:'' then
        (let agent = trim (replaceFirst trimmed ''User-agent:'' []) in
         if agent = userAgent \<or> agent = ''*''
         then Inr (st\<lparr>currentAgent := agent, allow := [], disallow := []\<rparr>)
         else Inr st)
      else if currentAgent st \<noteq> [] \<and> startsWith trimmed ''Allow:'' then
        (let path = trim (replaceFirst trimmed ''Allow:'' []) in
         if path \<noteq> [] then
           (case new_RegExp P (''^'' @ replaceStars path) of
              Inl e \<Rightarrow> Inl e
            | Inr re \<Rightarrow> Inr (st\<lparr>allow := allow st @ [re]\<rparr>))
         else Inr st)
      else if currentAgent st \<noteq> [] \<and> startsWith trimmed ''Disallow:'' then
        (let path = trim (replaceFirst trimmed ''Disallow:'' []) in
         if path \<noteq> [] then
           (case new_RegExp P (''^'' @ replaceStars path) of
              Inl e \<Rightarrow> Inl e
            | Inr re \<Rightarrow> Inr (st\<lparr>disallow := disallow st @ [re]\<rparr>))
         else Inr st)
      else if startsWith trimmed ''Sitemap:'' then Inr (st\<lparr>canSitemap := True\<rparr>)
      else Inr st)"

fun robotsLines :: "'w platform \<Rightarrow> string \<Rightarrow> string list \<Rightarrow> RobotsState \<Rightarrow> thrown + RobotsState" where
  "robotsLines P userAgent [] st = Inr st"
| "robotsLines P userAgent (line # rest) st =
     (case robotsLine P userAgent line st of
        Inl e \<Rightarrow> Inl e
      | Inr st' \<Rightarrow> robotsLines P userAgent rest st')"

definition parseRobotsText :: "'w platform \<Rightarrow> string \<Rightarrow> string \<Rightarrow> thrown + RobotsState" where
  "parseRobotsText P robotsContent userAgent =
     robotsLines P userAgent (splitLines robotsContent) robotsInit"

text \<open>The closure \<^verbatim>\<open>canCrawl\<close> returned by \<^verbatim>\<open>parseRobotsText\<close>, over the final rule lists:
  the first loop returns false at the first matching disallow pattern, the second returns
  true at the first matching allow pattern, and the function ends with \<^verbatim>\<open>return true\<close>.\<close>

fun testAny :: "'w platform \<Rightarrow> string list \<Rightarrow> string \<Rightarrow> bool" where
  "testAny P [] path = False"
| "testAny P (pattern # rest) path = (if RegExp_test P pattern path then True else testAny P rest path)"

definition canCrawl :: "'w platform \<Rightarrow> RobotsState \<Rightarrow> string \<Rightarrow> bool" where
  "canCrawl P st path =
     (if testAny P (disallow st) path then False
      else if testAny P (allow st) path then True
      else True)"

subsection \<open>Mission control\<close>

record MissionControl =
  mc_domain :: string
  baseDir :: string
  crawlDataPath :: string
  screenshotDir :: string
  lighthouseDir :: string
  linksDir :: string
  accessibilityDir :: string
  baselineDir :: string
  diffDir :: string

text \<open>\<^verbatim>\<open>path.join\<close> on two segments that need no normalisation.\<close>

definition path_join :: "string \<Rightarrow> string \<Rightarrow> string" where
  "path_join a b = a @ ''/'' @ b"

definition getReviewBaseDir :: "'w platform \<Rightarrow> string \<Rightarrow> string" where
  "getReviewBaseDir P domain =
     (let workDir = (if truthy (env_REVIEW_WORK_DIR P) then the (env_REVIEW_WORK_DIR P)
                     else ''/Users/craig/Code/core/.work/website-reviews'');
          domainSafe = map (\<lambda>c. if c = CHR ''.'' then CHR ''-'' else c) domain
      in path_join workDir domainSafe)"

text \<open>The seven \<^verbatim>\<open>ensureDir\<close> calls are the one platform call \<open>make_dirs\<close> on the base
  directory; it may throw.\<close>

definition createMissionControl :: "'w platform \<Rightarrow> string \<Rightarrow> 'w \<Rightarrow> thrown + (MissionControl \<times> 'w)" where
  "createMissionControl P domain w =
     (let base = getReviewBaseDir P domain in
      case make_dirs P base w of
        Inl e \<Rightarrow> Inl e
      | Inr w' \<Rightarrow>
          Inr (\<lparr>mc_domain = domain, baseDir = base,
                crawlDataPath = path_join base ''crawl-results.json'',
                screenshotDir = path_join base ''screenshots'',
                lighthouseDir = path_join base ''lighthouse'',
                linksDir = path_join base ''links'',
                accessibilityDir = path_join base ''accessibility'',
                baselineDir = path_join base ''baselines'',
                diffDir = path_join base ''diffs''\<rparr>, w'))"

text \<open>\<^verbatim>\<open>Math.round((Date.now() - startTime) / 1000)\<close>: halves round up.\<close>

definition calculateElapsedTime :: "'w platform \<Rightarrow> int \<Rightarrow> 'w \<Rightarrow> int" where
  "calculateElapsedTime P startTime w = (Date_now P w - startTime + 500) div 1000"

section \<open>tools/broken-links\<close>

record LinkStatus =
  ls_url :: string
  ls_status :: int
  ls_statusText :: string
  ls_isWorking :: bool
  ls_redirectUrl :: "string option"
  ls_redirectChainLength :: int
  ls_responseTime :: int
  ls_error :: "string option"

record LinkSummary =
  total404 :: int
  totalTimeouts :: int
  totalRedirectChains :: int

record BrokenLinkResult =
  bl_domain :: string
  bl_timestamp :: string
  brokenLinks :: "LinkStatus list"
  workingLinks :: int
  totalChecked :: int
  orphanedPages :: "string list"
  summary :: LinkSummary

record CheckLinksOptions =
  o_urls :: "string list option"
  o_domain :: "string option"
  o_useCrawlData :: "bool option"
  o_checkExternal :: "bool option"
  o_externalTimeout :: "number option"
  o_rateLimit :: "number option"

definition DEFAULT_TIMEOUT_links :: number where
  "DEFAULT_TIMEOUT_links = 10000"

definition RATE_LIMIT_MS_links :: number where
  "RATE_LIMIT_MS_links = 500"

text \<open>\<^verbatim>\<open>checkLink\<close> is an async function whose whole body is a try with a catch that
  returns: its promise never rejects, so the result is always \<open>Inr\<close>. The sum type is kept
  for the caller's own catch block.\<close>

definition checkLink :: "'w platform \<Rightarrow> string \<Rightarrow> number \<Rightarrow> 'w \<Rightarrow> (thrown + LinkStatus) \<times> 'w" where
  "checkLink P u timeout w =
     (let startTime = Date_now P w in
      case axios_head P u timeout w of
        (Inr response, w') \<Rightarrow>
          (let responseTime = Date_now P w' - startTime;
               isWorking = (r_status response \<ge> 200 \<and> r_status response < 400);
               redirectChainLength =
                 (case r_request response of
                    None \<Rightarrow> 0
                  | Some requestUrl \<Rightarrow> if requestUrl \<noteq> Some u then 1 else 0)
           in (Inr \<lparr>ls_url = u, ls_status = r_status response,
                     ls_statusText = r_statusText response,
                     ls_isWorking = isWorking,
                     ls_redirectUrl = orElse (r_dataLocation response) (r_headersLocation response),
                     ls_redirectChainLength = redirectChainLength,
                     ls_responseTime = responseTime,
                     ls_error = None\<rparr>, w'))
      | (Inl error, w') \<Rightarrow>
          (let responseTime = Date_now P w' - startTime in
           if code error = Some ''ECONNABORTED'' \<or> (isError error \<and> str_includes (message error) ''timeout'')
           then (Inr \<lparr>ls_url = u, ls_status = 0, ls_statusText = ''Timeout'',
                      ls_isWorking = False, ls_redirectUrl = None,
                      ls_redirectChainLength = 0, ls_responseTime = responseTime,
                      ls_error = Some ''Request timeout''\<rparr>, w')
           else (Inr \<lparr>ls_url = u, ls_status = 0, ls_statusText = ''Error'',
                      ls_isWorking = False, ls_redirectUrl = None,
                      ls_redirectChainLength = 0, ls_responseTime = responseTime,
                      ls_error = Some (errorMsgOf error)\<rparr>, w')))"

definition findOrphanedPages :: "'w platform \<Rightarrow> string \<Rightarrow> MissionControl \<Rightarrow> 'w \<Rightarrow> string list" where
  "findOrphanedPages P domain mission w =
     (case read_pages P (crawlDataPath mission) w of
        None \<Rightarrow> []
      | Some pgs \<Rightarrow>
          (let allUrls = Set_of (map url pgs);
               referencedUrls = Set_of (concat (map (\<lambda>page. internal (links page)) pgs));
               baseUrl = ''https://'' @ domain
           in filter (\<lambda>u. u \<noteq> baseUrl \<and> u \<notin> set referencedUrls) allUrls))"

text \<open>The loop variables of \<^verbatim>\<open>checkBrokenLinks\<close>.\<close>

record 'w LinkLoop =
  ll_brokenLinks :: "LinkStatus list"
  ll_workingCount :: int
  ll_world :: 'w

definition checkOne :: "'w platform \<Rightarrow> string \<Rightarrow> number \<Rightarrow> number \<Rightarrow> string \<Rightarrow> 'w LinkLoop \<Rightarrow> 'w LinkLoop" where
  "checkOne P domain externalTimeout rateLimit u st =
     (let w1 = sleep P rateLimit (ll_world st);
          isInternal = isSameDomain P u domain;
          timeout = (if isInternal then DEFAULT_TIMEOUT_links else externalTimeout)
      in case checkLink P u timeout w1 of
           (Inr status, w2) \<Rightarrow>
             if ls_isWorking status
             then st\<lparr>ll_workingCount := ll_workingCount st + 1, ll_world := w2\<rparr>
             else st\<lparr>ll_brokenLinks := ll_brokenLinks st @ [status], ll_world := w2\<rparr>
         | (Inl error, w2) \<Rightarrow>
             st\<lparr>ll_brokenLinks := ll_brokenLinks st @
                   [\<lparr>ls_url = u, ls_status = 0, ls_statusText = ''Error'',
                     ls_isWorking = False, ls_redirectUrl = None,
                     ls_redirectChainLength = 0, ls_responseTime = 0,
                     ls_error = Some (errorMsgOf error)\<rparr>],
                ll_world := w2\<rparr>)"

fun checkEach :: "'w platform \<Rightarrow> string \<Rightarrow> number \<Rightarrow> number \<Rightarrow> string list \<Rightarrow> 'w LinkLoop \<Rightarrow> 'w LinkLoop" where
  "checkEach P domain externalTimeout rateLimit [] st = st"
| "checkEach P domain externalTimeout rateLimit (u # rest) st =
     checkEach P domain externalTimeout rateLimit rest
       (checkOne P domain externalTimeout rateLimit u st)"

text \<open>The links gathered from the crawl data: every internal link of every page, and every
  external link when \<open>checkExternal\<close> is set, page by page.\<close>

definition collectLinks :: "bool \<Rightarrow> PageMetadata list \<Rightarrow> string list" where
  "collectLinks checkExternal pgs =
     concat (map (\<lambda>page. internal (links page) @
                          (if checkExternal then external (links page) else [])) pgs)"

definition linkSummary :: "LinkStatus list \<Rightarrow> LinkSummary" where
  "linkSummary bl =
     \<lparr>total404 = int (length (filter (\<lambda>l. ls_status l = 404) bl)),
      totalTimeouts = int (length (filter
         (\<lambda>l. case ls_error l of None \<Rightarrow> False | Some e \<Rightarrow> str_includes e ''timeout'') bl)),
      totalRedirectChains = int (length (filter (\<lambda>l. ls_redirectChainLength l > 2) bl))\<rparr>"

text \<open>The first part of \<^verbatim>\<open>checkBrokenLinks\<close>: the options with their defaults, the domain,
  and the candidate links in the order they are added to \<^verbatim>\<open>allLinks\<close>.\<close>

definition optUrls :: "CheckLinksOptions \<Rightarrow> string list" where
  "optUrls options = (case o_urls options of None \<Rightarrow> [] | Some x \<Rightarrow> x)"

definition optUseCrawlData :: "CheckLinksOptions \<Rightarrow> bool" where
  "optUseCrawlData options = (case o_useCrawlData options of None \<Rightarrow> True | Some x \<Rightarrow> x)"

definition optCheckExternal :: "CheckLinksOptions \<Rightarrow> bool" where
  "optCheckExternal options = (case o_checkExternal options of None \<Rightarrow> False | Some x \<Rightarrow> x)"

definition linkDomain :: "'w platform \<Rightarrow> CheckLinksOptions \<Rightarrow> string" where
  "linkDomain P options =
     (let providedDomain = o_domain options;
          domain0 = (if truthy providedDomain then the providedDomain else [])
      in case optUrls options of
           u0 # _ \<Rightarrow> extractDomain P u0
         | [] \<Rightarrow> if optUseCrawlData options \<and> truthy providedDomain
                 then the providedDomain else domain0)"

definition candidateLinks :: "'w platform \<Rightarrow> CheckLinksOptions \<Rightarrow> MissionControl \<Rightarrow> 'w \<Rightarrow> string list" where
  "candidateLinks P options mission w0 =
     (if optUseCrawlData options then
        (case read_pages P (crawlDataPath mission) w0 of
           None \<Rightarrow> []
         | Some pgs \<Rightarrow> collectLinks (optCheckExternal options) pgs)
      else []) @ optUrls options"

definition checkBrokenLinks :: "'w platform \<Rightarrow> CheckLinksOptions \<Rightarrow> 'w \<Rightarrow> (thrown + BrokenLinkResult) \<times> 'w" where
  "checkBrokenLinks P options w =
     (let externalTimeout = (case o_externalTimeout options of None \<Rightarrow> DEFAULT_TIMEOUT_links | Some x \<Rightarrow> x);
          rateLimit = (case o_rateLimit options of None \<Rightarrow> RATE_LIMIT_MS_links | Some x \<Rightarrow> x);
          domain = linkDomain P options
      in if domain = [] then (Inl (new_Error ''Must provide domain or URLs for link checking''), w)
         else
           (case createMissionControl P domain w of
              Inl e \<Rightarrow> (Inl e, w)
            | Inr (mission, w0) \<Rightarrow>
                (let allLinks = Set_of (candidateLinks P options mission w0)
                 in if length allLinks = 0 then (Inl (new_Error ''No links found to check''), w0)
                    else
                      (let st = checkEach P domain externalTimeout rateLimit allLinks
                                  \<lparr>ll_brokenLinks = [], ll_workingCount = 0, ll_world = w0\<rparr>;
                           result =
                             \<lparr>bl_domain = domain,
                              bl_timestamp = Date_iso P (ll_world st),
                              brokenLinks = ll_brokenLinks st,
                              workingLinks = ll_workingCount st,
                              totalChecked = int (length allLinks),
                              orphanedPages = findOrphanedPages P domain mission (ll_world st),
                              summary = linkSummary (ll_brokenLinks st)\<rparr>
                       in case write_json P (path_join (linksDir mission) ''broken-links.json'') (ll_world st) of
                            Inl e \<Rightarrow> (Inl e, ll_world st)
                          | Inr w3 \<Rightarrow> (Inr result, w3)))))"

section \<open>tools/crawl\<close>

record CrawlError =
  ce_url :: string
  ce_error :: string
  ce_timestamp :: string

record CrawlResult =
  cr_domain :: string
  startUrl :: string
  cr_timestamp :: string
  cr_pages :: "PageMetadata list"
  sitemapFound :: bool
  totalPages :: int
  crawlDuration :: int
  cr_errors :: "CrawlError list"

record CrawlOptions =
  c_url :: string
  c_maxDepth :: "number option"
  c_maxPages :: "number option"
  c_respectRobotsTxt :: "bool option"
  c_rateLimit :: "number option"

definition DEFAULT_MAX_DEPTH :: number where
  "DEFAULT_MAX_DEPTH = 3"

definition RATE_LIMIT_MS :: number where
  "RATE_LIMIT_MS = 1000"

text \<open>
  The mutable objects shared by \<^verbatim>\<open>crawlWebsite\<close> and \<^verbatim>\<open>recursiveCrawl\<close>: the \<^verbatim>\<open>pages\<close>
  map, the \<^verbatim>\<open>errors\<close> array and the world. \<open>trace\<close> is instrumentation that the code does
  not have and no function of the model reads: \<^verbatim>\<open>recursiveCrawl\<close> logs an \<open>Enter\<close> event with its URL
  and depth on every call, and a \<open>Stored\<close> event on every \<^verbatim>\<open>pages.set\<close>.
\<close>

datatype event = Enter string int | Stored string int

record 'w Crawl =
  pages :: "(string \<times> PageMetadata) list"
  errors :: "CrawlError list"
  world :: 'w
  trace :: "event list"

text \<open>The anchor loop of \<^verbatim>\<open>crawlPage\<close> over the two link sets.\<close>

definition addLink :: "'w platform \<Rightarrow> string \<Rightarrow> string \<Rightarrow> string list \<times> string list \<Rightarrow> string list \<times> string list" where
  "addLink P u h acc =
     (if h \<noteq> [] then
        (let normalized = normalizeUrl P h (Some u) in
         if startsWith normalized ''http'' then
           (if isSameDomain P normalized u
            then (Set_add (fst acc) normalized, snd acc)
            else (fst acc, Set_add (snd acc) normalized))
         else acc)
      else acc)"

fun addLinks :: "'w platform \<Rightarrow> string \<Rightarrow> string list \<Rightarrow> string list \<times> string list \<Rightarrow> string list \<times> string list" where
  "addLinks P u [] acc = acc"
| "addLinks P u (h # hs) acc = addLinks P u hs (addLink P u h acc)"

text \<open>\<^verbatim>\<open>crawlPage\<close>: \<open>get_page\<close> stands for the request and the cheerio selectors; whatever
  is thrown inside the try is caught and turned into \<^verbatim>\<open>null\<close> (\<open>None\<close>), so the promise
  never rejects and the result is always \<open>Inr\<close>.\<close>

definition crawlPage :: "'w platform \<Rightarrow> string \<Rightarrow> string \<Rightarrow> number \<Rightarrow> 'w \<Rightarrow> (thrown + PageMetadata option) \<times> 'w" where
  "crawlPage P u domain rateLimit w =
     (let w1 = (if rateLimit > 0 then sleep P rateLimit w else w) in
      case get_page P u w1 of
        (Inl error, w2) \<Rightarrow> (Inr None, w2)
      | (Inr facts, w2) \<Rightarrow>
          (let ls = addLinks P u (f_hrefs facts) ([], []) in
           (Inr (Some \<lparr>url = u, title = f_title facts, description = f_description facts,
                       h1 = f_h1 facts, canonical = f_canonical facts,
                       ogImage = f_ogImage facts, ogTitle = f_ogTitle facts,
                       ogDescription = f_ogDescription facts,
                       wordCount = f_wordCount facts,
                       links = \<lparr>internal = fst ls, external = snd ls\<rparr>,
                       headings = \<lparr>hd_h1 = f_h1s facts, hd_h2 = f_h2s facts, hd_h3 = f_h3s facts\<rparr>,
                       isIndexed = True, noindex = f_noindex facts\<rparr>), w2)))"

text \<open>The constant arguments of \<^verbatim>\<open>recursiveCrawl\<close>, passed unchanged to every recursive
  call: \<^verbatim>\<open>domain\<close>, \<^verbatim>\<open>canCrawlFn\<close>, \<^verbatim>\<open>maxDepth\<close>, \<^verbatim>\<open>maxPages\<close>, \<^verbatim>\<open>rateLimit\<close>.\<close>

record CrawlArgs =
  a_domain :: string
  a_canCrawlFn :: "string \<Rightarrow> bool"
  a_maxDepth :: number
  a_maxPages :: number
  a_rateLimit :: number

text \<open>\<^verbatim>\<open>recursiveCrawl\<close> and the \<^verbatim>\<open>for\<close> loop over \<^verbatim>\<open>metadata.links.internal\<close> in its
  body (\<open>crawlLinks\<close>, at the depth of the page that holds the links).\<close>

function recursiveCrawl :: "'w platform \<Rightarrow> CrawlArgs \<Rightarrow> string \<Rightarrow> int \<Rightarrow> 'w Crawl \<Rightarrow> 'w Crawl"
  and crawlLinks :: "'w platform \<Rightarrow> CrawlArgs \<Rightarrow> string list \<Rightarrow> int \<Rightarrow> 'w Crawl \<Rightarrow> 'w Crawl"
where
  "recursiveCrawl P a pageUrl depth s0 =
     (let s = s0\<lparr>trace := trace s0 @ [Enter pageUrl depth]\<rparr> in
      if of_int depth > a_maxDepth a \<or> of_int (Map_size (pages s)) \<ge> a_maxPages a then s
      else if Map_has (pages s) pageUrl then s
      else
        (case new_URL P pageUrl of
           None \<Rightarrow> s
         | Some urlObj \<Rightarrow>
             if \<not> a_canCrawlFn a (pathname urlObj) then s
             else
               (let w1 = sleep P (a_rateLimit a) (world s) in
                case crawlPage P pageUrl (a_domain a) 0 w1 of
                  (Inr None, w2) \<Rightarrow> s\<lparr>world := w2\<rparr>
                | (Inr (Some metadata), w2) \<Rightarrow>
                    crawlLinks P a (internal (links metadata)) depth
                      (s\<lparr>pages := Map_set (pages s) pageUrl metadata, world := w2,
                         trace := trace s @ [Stored pageUrl depth]\<rparr>)
                | (Inl error, w2) \<Rightarrow>
                    s\<lparr>errors := errors s @
                         [\<lparr>ce_url = pageUrl, ce_error = errorMsgOf error,
                           ce_timestamp = Date_iso P w2\<rparr>],
                       world := w2\<rparr>)))"
| "crawlLinks P a [] depth s = s"
| "crawlLinks P a (link # rest) depth s =
     crawlLinks P a rest depth
       (if \<not> Map_has (pages s) link \<and> of_int (Map_size (pages s)) < a_maxPages a
        then recursiveCrawl P a link (depth + 1) s
        else s)"
  by pat_completeness auto

termination
proof (relation "measures
    [(\<lambda>x. case x of
            Inl (P, a, pageUrl, depth, s) \<Rightarrow> 2 * nat (\<lfloor>a_maxDepth a\<rfloor> + 1 - depth)
          | Inr (P, a, ls, depth, s) \<Rightarrow> 2 * nat (\<lfloor>a_maxDepth a\<rfloor> - depth) + 1),
     (\<lambda>x. case x of Inl _ \<Rightarrow> 0 | Inr (P, a, ls, depth, s) \<Rightarrow> length ls)]", goal_cases)
  case 1
  show ?case by simp
next
  case (2 P a pageUrl depth s0 s urlObj w1 r w2 mo metadata)
  then have "of_int depth \<le> a_maxDepth a" by simp
  then have "depth \<le> \<lfloor>a_maxDepth a\<rfloor>" by (simp add: le_floor_iff)
  then show ?case by simp
next
  case 3
  then show ?case by auto
next
  case 4
  then show ?case by auto
qed

text \<open>\<^verbatim>\<open>fetchSitemap\<close>: \<open>get_sitemap\<close> stands for the request and the XML parser; it yields
  \<open>None\<close> when the document has no \<^verbatim>\<open>urlset.url\<close>, and otherwise one entry per
  \<^verbatim>\<open>url\<close> element holding its first \<^verbatim>\<open>loc\<close>, if any. Falsy entries are skipped.\<close>

definition sitemapLocs :: "string option list option \<Rightarrow> string list" where
  "sitemapLocs parsed =
     (case parsed of
        None \<Rightarrow> []
      | Some entries \<Rightarrow> concat (map (\<lambda>loc. if truthy loc then [the loc] else []) entries))"

definition fetchSitemap :: "'w platform \<Rightarrow> string \<Rightarrow> 'w \<Rightarrow> string list \<times> 'w" where
  "fetchSitemap P sitemapUrl w =
     (case get_sitemap P sitemapUrl w of
        (Inl error, w') \<Rightarrow> ([], w')
      | (Inr parsed, w') \<Rightarrow>
          (filter (\<lambda>u. isSameDomain P u sitemapUrl) (sitemapLocs parsed), w'))"

definition fetchRobotsTxt :: "'w platform \<Rightarrow> string \<Rightarrow> 'w \<Rightarrow> string \<times> 'w" where
  "fetchRobotsTxt P baseUrl w =
     (case new_URL_base P ''/robots.txt'' baseUrl of
        None \<Rightarrow> ([], w)
      | Some u \<Rightarrow>
          (case get_text P (href u) w of
             (Inl error, w') \<Rightarrow> ([], w')
           | (Inr data, w') \<Rightarrow> (data, w')))"

text \<open>The \<^verbatim>\<open>for\<close> loop of \<^verbatim>\<open>crawlWebsite\<close> over the sitemap's pages.\<close>

fun sitemapLoop :: "'w platform \<Rightarrow> string \<Rightarrow> number \<Rightarrow> string list \<Rightarrow> 'w Crawl \<Rightarrow> 'w Crawl" where
  "sitemapLoop P domain rateLimit [] s = s"
| "sitemapLoop P domain rateLimit (pageUrl # rest) s =
     sitemapLoop P domain rateLimit rest
       (case crawlPage P pageUrl domain rateLimit (world s) of
          (Inr (Some metadata), w') \<Rightarrow> s\<lparr>pages := Map_set (pages s) pageUrl metadata, world := w'\<rparr>
        | (Inr None, w') \<Rightarrow> s\<lparr>world := w'\<rparr>
        | (Inl error, w') \<Rightarrow> s\<lparr>world := w'\<rparr>)"

text \<open>The outer catch block of \<^verbatim>\<open>crawlWebsite\<close>: record the error, then throw.\<close>

definition crawlFailed :: "'w platform \<Rightarrow> string \<Rightarrow> thrown \<Rightarrow> 'w Crawl \<Rightarrow> (thrown + CrawlResult) \<times> 'w Crawl" where
  "crawlFailed P u error s =
     (let errorMsg = errorMsgOf error in
      (Inl (new_Error (''Crawl failed: '' @ errorMsg)),
       s\<lparr>errors := errors s @
            [\<lparr>ce_url = u, ce_error = errorMsg, ce_timestamp = Date_iso P (world s)\<rparr>]\<rparr>))"

text \<open>The tail of \<^verbatim>\<open>crawlWebsite\<close>: build the result, write it, return it.\<close>

definition saveResults :: "'w platform \<Rightarrow> string \<Rightarrow> string \<Rightarrow> MissionControl \<Rightarrow> int \<Rightarrow> bool \<Rightarrow> 'w Crawl \<Rightarrow> (thrown + CrawlResult) \<times> 'w Crawl" where
  "saveResults P u domain mission startTime found s =
     (let crawlData =
            \<lparr>cr_domain = domain, startUrl = u,
             cr_timestamp = Date_iso P (world s),
             cr_pages = Map_values (pages s),
             sitemapFound = found,
             totalPages = Map_size (pages s),
             crawlDuration = calculateElapsedTime P startTime (world s),
             cr_errors = errors s\<rparr>
      in case write_json P (crawlDataPath mission) (world s) of
           Inl error \<Rightarrow> crawlFailed P u error s
         | Inr w' \<Rightarrow> (Inr crawlData, s\<lparr>world := w'\<rparr>))"

text \<open>The options of \<^verbatim>\<open>crawlWebsite\<close> with their defaults.\<close>

definition optMaxDepth :: "CrawlOptions \<Rightarrow> number" where
  "optMaxDepth options = (case c_maxDepth options of None \<Rightarrow> DEFAULT_MAX_DEPTH | Some x \<Rightarrow> x)"

definition optMaxPages :: "CrawlOptions \<Rightarrow> number" where
  "optMaxPages options = (case c_maxPages options of None \<Rightarrow> 100 | Some x \<Rightarrow> x)"

definition optRespectRobotsTxt :: "CrawlOptions \<Rightarrow> bool" where
  "optRespectRobotsTxt options = (case c_respectRobotsTxt options of None \<Rightarrow> True | Some x \<Rightarrow> x)"

definition optRateLimit :: "CrawlOptions \<Rightarrow> number" where
  "optRateLimit options = (case c_rateLimit options of None \<Rightarrow> RATE_LIMIT_MS | Some x \<Rightarrow> x)"

definition sitemapUrlOf :: "'w platform \<Rightarrow> string \<Rightarrow> string" where
  "sitemapUrlOf P u = origin (the (new_URL P u)) @ ''/sitemap.xml''"

text \<open>\<^verbatim>\<open>crawlWebsite\<close> returns its result or throws, and leaves the shared objects in the
  state returned beside it. \<open>sitemapUrlOf\<close> is evaluated only after \<open>isValidUrl\<close> has
  succeeded, so the URL parses.\<close>

definition crawlWebsite :: "'w platform \<Rightarrow> CrawlOptions \<Rightarrow> 'w \<Rightarrow> (thrown + CrawlResult) \<times> 'w Crawl" where
  "crawlWebsite P options w =
     (let startTime = Date_now P w;
          u = c_url options;
          maxDepth = optMaxDepth options;
          maxPages = optMaxPages options;
          respectRobotsTxt = optRespectRobotsTxt options;
          rateLimit = optRateLimit options
      in if \<not> isValidUrl P u
         then (Inl (new_Error (''Invalid URL: '' @ u)),
               \<lparr>pages = [], errors = [], world = w, trace = []\<rparr>)
         else
           (let domain = extractDomain P u in
            case createMissionControl P domain w of
              Inl e \<Rightarrow> (Inl e, \<lparr>pages = [], errors = [], world = w, trace = []\<rparr>)
            | Inr (mission, w0) \<Rightarrow>
                (let sitemapUrl = sitemapUrlOf P u;
                     (sitemapPages, w1) = fetchSitemap P sitemapUrl w0;
                     s1 = \<lparr>pages = [], errors = [], world = w1, trace = []\<rparr>
                 in if length sitemapPages > 0
                    then saveResults P u domain mission startTime True
                           (sitemapLoop P domain rateLimit (slice0 sitemapPages maxPages) s1)
                    else
                      (let (robotsTxt, w2) = fetchRobotsTxt P u w1;
                           s2 = s1\<lparr>world := w2\<rparr>
                       in if respectRobotsTxt then
                            (case parseRobotsText P robotsTxt ''Googlebot'' of
                               Inl error \<Rightarrow> crawlFailed P u error s2
                             | Inr rules \<Rightarrow>
                                 saveResults P u domain mission startTime False
                                   (recursiveCrawl P
                                      \<lparr>a_domain = domain, a_canCrawlFn = canCrawl P rules,
                                       a_maxDepth = maxDepth, a_maxPages = maxPages,
                                       a_rateLimit = rateLimit\<rparr> u 0 s2))
                          else
                            saveResults P u domain mission startTime False
                              (recursiveCrawl P
                                 \<lparr>a_domain = domain, a_canCrawlFn = (\<lambda>_. True),
                                  a_maxDepth = maxDepth, a_maxPages = maxPages,
                                  a_rateLimit = rateLimit\<rparr> u 0 s2)))))"

section \<open>A static site: one instance of the platform\<close>

text \<open>
  Closed examples need a concrete platform. The one below serves a fixed site: a request
  for a URL always gets the same answer, the clock advances only by \<open>sleep\<close>, and the disk
  never fails. Its \<^verbatim>\<open>URL\<close> and \<^verbatim>\<open>RegExp\<close> cover a fragment of the real ones:
  \<^item> URLs: lower-case \<^verbatim>\<open>http://\<close> and \<^verbatim>\<open>https://\<close> URLs whose host has no port or
    credentials and whose path, query and fragment need no percent-encoding, with
    path-relative references resolved by the WHATWG rules (dot segments collapse);
  \<^item> regular expressions: \<^verbatim>\<open>^\<close> followed by literal letters, digits, \<^verbatim>\<open>/\<close>, \<^verbatim>\<open>-\<close>, \<^verbatim>\<open>_\<close>,
    and \<^verbatim>\<open>.\<close> or \<^verbatim>\<open>.*\<close>.
  Outside the fragment it reports a parse failure, which the real platform may not; the
  examples below stay inside it. Theorems that quantify over the platform do not depend on it.
\<close>

fun splitOn :: "char \<Rightarrow> string \<Rightarrow> string list" where
  "splitOn d [] = [[]]"
| "splitOn d (c # cs) =
     (if c = d then [] # splitOn d cs
      else (case splitOn d cs of [] \<Rightarrow> [[c]] | l # ls \<Rightarrow> (c # l) # ls))"

definition hostChar :: "char \<Rightarrow> bool" where
  "hostChar c = (c \<in> set ''abcdefghijklmnopqrstuvwxyz0123456789-.'')"

definition pathChar :: "char \<Rightarrow> bool" where
  "pathChar c = (c \<in> set ''abcdefghijklmnopqrstuvwxyzABCDEFGHIJKLMNOPQRSTUVWXYZ0123456789-._~/'')"

definition tailChar :: "char \<Rightarrow> bool" where
  "tailChar c = (c \<in> set ''abcdefghijklmnopqrstuvwxyzABCDEFGHIJKLMNOPQRSTUVWXYZ0123456789-._~/=&'')"

text \<open>The path state of the URL parser: a single-dot segment is dropped, a double-dot segment
  removes the segment before it, and either one at the end leaves an empty last segment.\<close>

fun dotSegments :: "string list \<Rightarrow> string list \<Rightarrow> string list" where
  "dotSegments [] out = out"
| "dotSegments [seg] out =
     (if seg = ''.'' then out @ [[]]
      else if seg = ''..'' then butlast out @ [[]]
      else out @ [seg])"
| "dotSegments (seg # rest) out =
     (if seg = ''.'' then dotSegments rest out
      else if seg = ''..'' then dotSegments rest (butlast out)
      else dotSegments rest (out @ [seg]))"

definition mkURL :: "string \<Rightarrow> string \<Rightarrow> string list \<Rightarrow> string \<Rightarrow> string \<Rightarrow> URL" where
  "mkURL scheme auth segs q frag =
     (let pn = concat (map (\<lambda>seg. ''/'' @ seg) segs);
          se = (if q = [] then [] else ''?'' @ q);
          ha = (if frag = [] then [] else ''#'' @ frag);
          og = scheme @ ''//'' @ auth
      in \<lparr>protocol = scheme, host = auth, hostname = auth, pathname = pn,
          search = se, hash = ha, origin = og, href = og @ pn @ se @ ha\<rparr>)"

definition notIn :: "string \<Rightarrow> char \<Rightarrow> bool" where
  "notIn cs c = (c \<notin> set cs)"

definition queryOf :: "string \<Rightarrow> string" where
  "queryOf s = (let t = dropWhile (notIn ''?#'') s in
                if startsWith t ''?'' then takeWhile (notIn ''#'') (drop 1 t) else [])"

definition fragmentOf :: "string \<Rightarrow> string" where
  "fragmentOf s = drop 1 (dropWhile (notIn ''#'') s)"

definition whatwg_URL :: "string \<Rightarrow> URL option" where
  "whatwg_URL s =
     (let scheme = (if startsWith s ''https://'' then ''https:''
                    else if startsWith s ''http://'' then ''http:'' else []);
          rest = drop (length scheme + 2) s;
          auth = takeWhile (notIn ''/?#'') rest;
          after = dropWhile (notIn ''/?#'') rest;
          p = takeWhile (notIn ''?#'') after;
          q = queryOf after;
          frag = fragmentOf after
      in if scheme = [] \<or> auth = [] \<or> \<not> list_all hostChar auth \<or> \<not> list_all pathChar p
            \<or> \<not> list_all tailChar q \<or> \<not> list_all tailChar frag
         then None
         else Some (mkURL scheme auth (dotSegments (splitOn CHR ''/'' (drop 1 p)) []) q frag))"

definition whatwg_URL_base :: "string \<Rightarrow> string \<Rightarrow> URL option" where
  "whatwg_URL_base rel baseUrl =
     (case whatwg_URL rel of
        Some u \<Rightarrow> Some u
      | None \<Rightarrow>
          (case whatwg_URL baseUrl of
             None \<Rightarrow> None
           | Some b \<Rightarrow>
               (let p = takeWhile (notIn ''?#'') rel;
                    q = queryOf rel;
                    frag = fragmentOf rel;
                    baseSegs = splitOn CHR ''/'' (drop 1 (pathname b))
                in if \<not> list_all pathChar p \<or> \<not> list_all tailChar q \<or> \<not> list_all tailChar frag
                      \<or> startsWith rel ''//''
                   then None
                   else if p = [] then
                     Some (mkURL (protocol b) (host b) baseSegs
                             (if startsWith rel ''?'' then q else drop 1 (search b)) frag)
                   else if startsWith p ''/'' then
                     Some (mkURL (protocol b) (host b)
                             (dotSegments (splitOn CHR ''/'' (drop 1 p)) []) q frag)
                   else
                     Some (mkURL (protocol b) (host b)
                             (dotSegments (butlast baseSegs @ splitOn CHR ''/'' p) []) q frag))))"

datatype rx_item = Lit char | AnyChar | AnyStar

fun rx_parse :: "string \<Rightarrow> rx_item list" where
  "rx_parse [] = []"
| "rx_parse [c] = (if c = CHR ''.'' then [AnyChar] else [Lit c])"
| "rx_parse (c # d # ds) =
     (if c = CHR ''.'' then
        (if d = CHR ''*'' then AnyStar # rx_parse ds else AnyChar # rx_parse (d # ds))
      else Lit c # rx_parse (d # ds))"

definition lineTerminator :: "char \<Rightarrow> bool" where
  "lineTerminator c = (c = CHR 0x0A \<or> c = CHR 0x0D)"

fun rx_match :: "rx_item list \<Rightarrow> string \<Rightarrow> bool" where
  "rx_match [] s = True"
| "rx_match (Lit a # p) [] = False"
| "rx_match (Lit a # p) (c # cs) = (a = c \<and> rx_match p cs)"
| "rx_match (AnyChar # p) [] = False"
| "rx_match (AnyChar # p) (c # cs) = (\<not> lineTerminator c \<and> rx_match p cs)"
| "rx_match (AnyStar # p) [] = rx_match p []"
| "rx_match (AnyStar # p) (c # cs) =
     (rx_match p (c # cs) \<or> (\<not> lineTerminator c \<and> rx_match (AnyStar # p) cs))"

definition rxChar :: "char \<Rightarrow> bool" where
  "rxChar c = (c \<in> set ''abcdefghijklmnopqrstuvwxyzABCDEFGHIJKLMNOPQRSTUVWXYZ0123456789/-_.'')"

fun rx_body_ok :: "string \<Rightarrow> bool" where
  "rx_body_ok [] = True"
| "rx_body_ok [c] = rxChar c"
| "rx_body_ok (c # d # ds) =
     (if c = CHR ''.'' \<and> d = CHR ''*'' then rx_body_ok ds else rxChar c \<and> rx_body_ok (d # ds))"

definition rx_ok :: "string \<Rightarrow> bool" where
  "rx_ok src = (startsWith src ''^'' \<and> rx_body_ok (drop 1 src))"

definition rx_test :: "string \<Rightarrow> string \<Rightarrow> bool" where
  "rx_test src s = rx_match (rx_parse (drop 1 src)) s"

record Site =
  site_page :: "string \<Rightarrow> thrown + PageFacts"
  site_sitemap :: "thrown + string option list option"
  site_robots :: "thrown + string"
  site_head :: "string \<Rightarrow> thrown + AxiosResponse"
  site_crawlData :: "PageMetadata list option"

definition static_platform :: "Site \<Rightarrow> nat platform" where
  "static_platform S =
     \<lparr>new_URL = whatwg_URL, new_URL_base = whatwg_URL_base,
      RegExp_ok = rx_ok, RegExp_test = rx_test,
      Date_now = int, Date_iso = (\<lambda>w. ''1970-01-01T00:00:00.000Z''),
      sleep = (\<lambda>ms w. w + nat \<lfloor>ms\<rfloor>),
      axios_head = (\<lambda>u t w. (site_head S u, w)),
      get_page = (\<lambda>u w. (site_page S u, w)),
      get_sitemap = (\<lambda>u w. (site_sitemap S, w)),
      get_text = (\<lambda>u w. (site_robots S, w)),
      make_dirs = (\<lambda>d w. Inr w),
      write_json = (\<lambda>f w. Inr w),
      read_pages = (\<lambda>f w. site_crawlData S),
      env_REVIEW_WORK_DIR = None\<rparr>"

definition networkError :: thrown where
  "networkError = \<lparr>isError = True, code = Some ''ENOTFOUND'',
                    message = ''getaddrinfo ENOTFOUND'',
                    asString = ''Error: getaddrinfo ENOTFOUND''\<rparr>"

definition timeoutError :: thrown where
  "timeoutError = \<lparr>isError = True, code = Some ''ECONNABORTED'',
                    message = ''timeout of 10000ms exceeded'',
                    asString = ''AxiosError: timeout of 10000ms exceeded''\<rparr>"

definition factsWith :: "string list \<Rightarrow> PageFacts" where
  "factsWith hrefs =
     \<lparr>f_title = [], f_description = [], f_h1 = [], f_canonical = [], f_ogImage = [],
      f_ogTitle = [], f_ogDescription = [], f_h1s = [], f_h2s = [], f_h3s = [],
      f_hrefs = hrefs, f_noindex = False, f_wordCount = 0\<rparr>"

definition pageWith :: "string \<Rightarrow> string list \<Rightarrow> PageMetadata" where
  "pageWith u ls =
     \<lparr>url = u, title = [], description = [], h1 = [], canonical = [], ogImage = [],
      ogTitle = [], ogDescription = [], wordCount = 0,
      links = \<lparr>internal = ls, external = []\<rparr>,
      headings = \<lparr>hd_h1 = [], hd_h2 = [], hd_h3 = []\<rparr>,
      isIndexed = True, noindex = False\<rparr>"

text \<open>A response of the client with status \<open>n\<close> whose answered request went to \<open>final\<close>.\<close>

definition headStatus :: "int \<Rightarrow> string \<Rightarrow> AxiosResponse" where
  "headStatus n final = \<lparr>r_status = n, r_statusText = [], r_request = Some None,
                         r_responseUrl = final,
                         r_dataLocation = None, r_headersLocation = None\<rparr>"

definition unlines :: "string list \<Rightarrow> string" where
  "unlines ls = (case ls of [] \<Rightarrow> [] | l # rest \<Rightarrow> l @ concat (map (\<lambda>x. CHR 0x0A # x) rest))"

section \<open>Example sites\<close>

definition linkSite :: Site where
  "linkSite =
     \<lparr>site_page = (\<lambda>u. Inl networkError),
      site_sitemap = Inl networkError,
      site_robots = Inl networkError,
      site_head = (\<lambda>u. if u = ''https://example.com/gone'' then Inr (headStatus 404 u)
                        else if u = ''https://example.com/slow'' then Inl timeoutError
                        else if u = ''https://example.com/moved''
                          then Inr (headStatus 404 ''https://example.com/new'')
                        else Inr (headStatus 200 u)),
      site_crawlData = Some [pageWith ''https://example.com''
          [''https://example.com/gone'', ''https://example.com/slow'',
           ''https://example.com/ok'', ''https://example.com/moved'']]\<rparr>"

definition linkOptions :: CheckLinksOptions where
  "linkOptions = \<lparr>o_urls = None, o_domain = Some ''example.com'', o_useCrawlData = None,
                   o_checkExternal = None, o_externalTimeout = None, o_rateLimit = None\<rparr>"

text \<open>Three crawled pages: the root links to \<open>/b\<close>; \<open>/b\<close> and \<open>/c\<close> link to nothing.\<close>

definition orphanSite :: Site where
  "orphanSite =
     \<lparr>site_page = (\<lambda>u. Inl networkError),
      site_sitemap = Inl networkError,
      site_robots = Inl networkError,
      site_head = (\<lambda>u. Inl networkError),
      site_crawlData = Some [pageWith ''https://example.com'' [''https://example.com/b''],
                             pageWith ''https://example.com/b'' [],
                             pageWith ''https://example.com/c'' []]\<rparr>"

definition exampleMission :: MissionControl where
  "exampleMission = fst (projr (createMissionControl (static_platform orphanSite) ''example.com'' 0))"

text \<open>A site that answers nothing: for examples that use only \<^verbatim>\<open>URL\<close> and \<^verbatim>\<open>RegExp\<close>.\<close>

definition noSite :: Site where
  "noSite =
     \<lparr>site_page = (\<lambda>u. Inl networkError),
      site_sitemap = Inl networkError,
      site_robots = Inl networkError,
      site_head = (\<lambda>u. Inl networkError),
      site_crawlData = None\<rparr>"

text \<open>Robots documents: an allow rule inside a disallowed directory, and a wildcard block
  followed by a block for another crawler.\<close>

definition robotsAllowInside :: string where
  "robotsAllowInside = unlines [''User-agent: *'', ''Disallow: /admin'', ''Allow: /admin/public'']"

definition robotsTwoBlocks :: string where
  "robotsTwoBlocks = unlines [''User-agent: *'', ''Disallow: /a'', ''User-agent: Bingbot'', ''Disallow: /b'']"

definition robotsSpecExample :: string where
  "robotsSpecExample = unlines [''User-agent: *'', ''Disallow: /admin'', ''Allow: /public'']"

text \<open>A site whose pages link in a cycle: the root links to itself and to \<open>/b\<close>, and \<open>/b\<close>
  links back to the root. It has no sitemap and no robots document.\<close>

definition cycleSite :: Site where
  "cycleSite =
     \<lparr>site_page = (\<lambda>u. if u = ''https://example.com/'' then Inr (factsWith [''/'', ''/b''])
                        else if u = ''https://example.com/b'' then Inr (factsWith [''/''])
                        else Inl networkError),
      site_sitemap = Inl networkError,
      site_robots = Inl networkError,
      site_head = (\<lambda>u. Inl networkError),
      site_crawlData = None\<rparr>"

text \<open>A site whose sitemap lists one page that cannot be fetched.\<close>

definition sitemapSite :: Site where
  "sitemapSite =
     \<lparr>site_page = (\<lambda>u. Inl networkError),
      site_sitemap = Inr (Some [Some ''https://example.com/a'']),
      site_robots = Inl networkError,
      site_head = (\<lambda>u. Inl networkError),
      site_crawlData = None\<rparr>"

text \<open>A site whose sitemap lists two pages, both served.\<close>

definition sitemapOkSite :: Site where
  "sitemapOkSite =
     \<lparr>site_page = (\<lambda>u. Inr (factsWith [])),
      site_sitemap = Inr (Some [Some ''https://example.com/a'', Some ''https://example.com/b'']),
      site_robots = Inl networkError,
      site_head = (\<lambda>u. Inl networkError),
      site_crawlData = None\<rparr>"

definition crawlOptions :: CrawlOptions where
  "crawlOptions = \<lparr>c_url = ''https://example.com/'', c_maxDepth = None, c_maxPages = None,
                    c_respectRobotsTxt = None, c_rateLimit = None\<rparr>"

definition crawlArgs :: CrawlArgs where
  "crawlArgs = \<lparr>a_domain = ''example.com'', a_canCrawlFn = (\<lambda>_. True), a_maxDepth = 3,
                 a_maxPages = 100, a_rateLimit = 1000\<rparr>"

definition emptyCrawl :: "nat Crawl" where
  "emptyCrawl = \<lparr>pages = [], errors = [], world = 0, trace = []\<rparr>"

text \<open>A site of three pages: the root links to \<open>/b\<close> and \<open>/c\<close>. No sitemap, no robots
  document. The options ask for at most two and a half pages.\<close>

definition starSite :: Site where
  "starSite =
     \<lparr>site_page = (\<lambda>u. if u = ''https://example.com/'' then Inr (factsWith [''/b'', ''/c''])
                        else Inr (factsWith [])),
      site_sitemap = Inl networkError,
      site_robots = Inl networkError,
      site_head = (\<lambda>u. Inl networkError),
      site_crawlData = None\<rparr>"

definition fractionOptions :: CrawlOptions where
  "fractionOptions = \<lparr>c_url = ''https://example.com/'', c_maxDepth = None,
                       c_maxPages = Some (5 / 2), c_respectRobotsTxt = None, c_rateLimit = None\<rparr>"

text \<open>Options with a negative page limit, and with a limit of one and a half pages.\<close>

definition negativeOptions :: CrawlOptions where
  "negativeOptions = \<lparr>c_url = ''https://example.com/'', c_maxDepth = None,
                       c_maxPages = Some (- 1), c_respectRobotsTxt = None, c_rateLimit = None\<rparr>"

definition halfOptions :: CrawlOptions where
  "halfOptions = \<lparr>c_url = ''https://example.com/'', c_maxDepth = None,
                   c_maxPages = Some (3 / 2), c_respectRobotsTxt = None, c_rateLimit = None\<rparr>"

text \<open>A site whose sitemap lists the root, \<open>/b\<close> and \<open>/c\<close>; the root links to \<open>/b\<close>. The
  second site is the first after \<^verbatim>\<open>crawlWebsite\<close> has been run on it from the seed
  \<^verbatim>\<open>https://example.com/\<close>: its crawl data are the pages of that run.\<close>

definition seedSite :: Site where
  "seedSite =
     \<lparr>site_page = (\<lambda>u. if u = ''https://example.com/'' then Inr (factsWith [''/b''])
                        else Inr (factsWith [])),
      site_sitemap = Inr (Some [Some ''https://example.com/'', Some ''https://example.com/b'',
                                Some ''https://example.com/c'']),
      site_robots = Inl networkError,
      site_head = (\<lambda>u. Inl networkError),
      site_crawlData = None\<rparr>"

definition seedCrawl :: CrawlResult where
  "seedCrawl = projr (fst (crawlWebsite (static_platform seedSite) crawlOptions 0))"

definition crawledSite :: Site where
  "crawledSite = seedSite\<lparr>site_crawlData := Some (cr_pages seedCrawl)\<rparr>"

section \<open>Predicates of the proofs\<close>

text \<open>The URLs of the \<open>Stored\<close> events of a trace, in order.\<close>

fun storedUrls :: "event list \<Rightarrow> string list" where
  "storedUrls [] = []"
| "storedUrls (Enter u d # es) = storedUrls es"
| "storedUrls (Stored u d # es) = u # storedUrls es"

text \<open>The sitemap URLs whose fetch succeeds in the run of the sitemap loop that starts in
  world \<open>w\<close>, in order: each fetch is made in the world that the fetches before it left.\<close>

fun sitemapFetched :: "'w platform \<Rightarrow> number \<Rightarrow> string list \<Rightarrow> 'w \<Rightarrow> string list" where
  "sitemapFetched P rl [] w = []"
| "sitemapFetched P rl (u # rest) w =
     (case get_page P u (if rl > 0 then sleep P rl w else w) of
        (Inl e, w') \<Rightarrow> sitemapFetched P rl rest w'
      | (Inr facts, w') \<Rightarrow> u # sitemapFetched P rl rest w')"

text \<open>The invariant of the recursive crawl: the map is within the bound \<open>M\<close>, its keys are
  the starting keys \<open>K0\<close> followed by the stored URLs, no key is repeated, every page is
  filed under its own URL, and every \<open>Stored\<close> event is within the depth limit.\<close>

definition crawlInv :: "string list \<Rightarrow> int \<Rightarrow> CrawlArgs \<Rightarrow> 'w Crawl \<Rightarrow> bool" where
  "crawlInv K0 M a s \<longleftrightarrow>
     \<lceil>a_maxPages a\<rceil> \<le> M \<and> Map_size (pages s) \<le> M
     \<and> map fst (pages s) = K0 @ storedUrls (trace s)
     \<and> distinct (map fst (pages s))
     \<and> (\<forall>(k, m) \<in> set (pages s). url m = k)
     \<and> (\<forall>u d. Stored u d \<in> set (trace s) \<longrightarrow> of_int d \<le> a_maxDepth a)"

section \<open>Link checking: classification and counts\<close>

lemma checkLink_cases:
  "(\<exists>r w'. axios_head P u t w = (Inr r, w') \<and>
     checkLink P u t w = (Inr \<lparr>ls_url = u, ls_status = r_status r,
                     ls_statusText = r_statusText r,
                     ls_isWorking = (r_status r \<ge> 200 \<and> r_status r < 400),
                     ls_redirectUrl = orElse (r_dataLocation r) (r_headersLocation r),
                     ls_redirectChainLength = (case r_request r of None \<Rightarrow> 0 | Some q \<Rightarrow> if q \<noteq> Some u then 1 else 0),
                     ls_responseTime = Date_now P w' - Date_now P w,
                     ls_error = None\<rparr>, w'))
   \<or> (\<exists>e w'. axios_head P u t w = (Inl e, w') \<and>
     checkLink P u t w = (Inr \<lparr>ls_url = u, ls_status = 0,
                     ls_statusText = (if code e = Some ''ECONNABORTED'' \<or> (isError e \<and> str_includes (message e) ''timeout'') then ''Timeout'' else ''Error''),
                     ls_isWorking = False,
                     ls_redirectUrl = None,
                     ls_redirectChainLength = 0,
                     ls_responseTime = Date_now P w' - Date_now P w,
                     ls_error = Some (if code e = Some ''ECONNABORTED'' \<or> (isError e \<and> str_includes (message e) ''timeout'') then ''Request timeout'' else errorMsgOf e)\<rparr>, w'))"
  by (cases "axios_head P u t w"; cases "fst (axios_head P u t w)")
     (auto simp: checkLink_def Let_def)

lemma includes_Request_timeout: "str_includes ''Request timeout'' ''timeout''"
  by (simp add: startsWith_def)

lemma checkLink_facts:
  "\<exists>st w'. checkLink P u t w = (Inr st, w') \<and> ls_url st = u
     \<and> (ls_isWorking st \<longleftrightarrow> 200 \<le> ls_status st \<and> ls_status st < 400)
     \<and> (ls_redirectChainLength st = 0 \<or> ls_redirectChainLength st = 1)"
  using checkLink_cases [of P u t w] by (auto split: option.splits)

lemma checkOne_cases:
  "\<exists>st w'. checkLink P u (if isSameDomain P u domain then DEFAULT_TIMEOUT_links else et)
              (sleep P rl (ll_world s)) = (Inr st, w')
     \<and> checkOne P domain et rl u s =
         (if ls_isWorking st
          then s\<lparr>ll_workingCount := ll_workingCount s + 1, ll_world := w'\<rparr>
          else s\<lparr>ll_brokenLinks := ll_brokenLinks s @ [st], ll_world := w'\<rparr>)"
proof -
  let ?t = "if isSameDomain P u domain then DEFAULT_TIMEOUT_links else et"
  obtain st w' where c: "checkLink P u ?t (sleep P rl (ll_world s)) = (Inr st, w')"
    using checkLink_facts [of P u ?t "sleep P rl (ll_world s)"] by blast
  then have "checkOne P domain et rl u s =
         (if ls_isWorking st
          then s\<lparr>ll_workingCount := ll_workingCount s + 1, ll_world := w'\<rparr>
          else s\<lparr>ll_brokenLinks := ll_brokenLinks s @ [st], ll_world := w'\<rparr>)"
    by (simp add: checkOne_def Let_def)
  with c show ?thesis by blast
qed

lemma checkOne_step:
  "(ll_workingCount (checkOne P domain et rl u s) = ll_workingCount s + 1
      \<and> ll_brokenLinks (checkOne P domain et rl u s) = ll_brokenLinks s)
   \<or> (ll_workingCount (checkOne P domain et rl u s) = ll_workingCount s
      \<and> (\<exists>st. ll_brokenLinks (checkOne P domain et rl u s) = ll_brokenLinks s @ [st]
            \<and> ls_url st = u
            \<and> (ls_redirectChainLength st = 0 \<or> ls_redirectChainLength st = 1)))"
proof -
  let ?t = "if isSameDomain P u domain then DEFAULT_TIMEOUT_links else et"
  obtain st w' where c: "checkLink P u ?t (sleep P rl (ll_world s)) = (Inr st, w')"
    and f: "ls_url st = u" "ls_redirectChainLength st = 0 \<or> ls_redirectChainLength st = 1"
    using checkLink_facts [of P u ?t "sleep P rl (ll_world s)"] by blast
  from c have "checkOne P domain et rl u s =
         (if ls_isWorking st
          then s\<lparr>ll_workingCount := ll_workingCount s + 1, ll_world := w'\<rparr>
          else s\<lparr>ll_brokenLinks := ll_brokenLinks s @ [st], ll_world := w'\<rparr>)"
    by (simp add: checkOne_def Let_def)
  with f show ?thesis by (cases "ls_isWorking st") auto
qed

lemma checkEach_count:
  "ll_workingCount (checkEach P domain et rl us s) + int (length (ll_brokenLinks (checkEach P domain et rl us s)))
     = ll_workingCount s + int (length (ll_brokenLinks s)) + int (length us)"
proof (induction us arbitrary: s)
  case Nil
  show ?case by simp
next
  case (Cons u us)
  from checkOne_step [of P domain et rl u s] Cons.IH [of "checkOne P domain et rl u s"]
  show ?case by auto
qed

lemma checkEach_urls:
  "\<exists>bs. map ls_url (ll_brokenLinks (checkEach P domain et rl us s)) = map ls_url (ll_brokenLinks s) @ bs
       \<and> set bs \<subseteq> set us \<and> (distinct us \<longrightarrow> distinct bs)"
proof (induction us arbitrary: s)
  case Nil
  show ?case by simp
next
  case (Cons u us)
  let ?s1 = "checkOne P domain et rl u s"
  obtain bs where bs: "map ls_url (ll_brokenLinks (checkEach P domain et rl us ?s1)) = map ls_url (ll_brokenLinks ?s1) @ bs"
    "set bs \<subseteq> set us" "distinct us \<longrightarrow> distinct bs"
    using Cons.IH [of ?s1] by blast
  from checkOne_step [of P domain et rl u s]
  consider "ll_brokenLinks ?s1 = ll_brokenLinks s"
    | st where "ll_brokenLinks ?s1 = ll_brokenLinks s @ [st]" "ls_url st = u"
    by blast
  then show ?case
  proof cases
    case 1
    with bs show ?thesis by auto
  next
    case 2
    with bs have "map ls_url (ll_brokenLinks (checkEach P domain et rl (u # us) s)) = map ls_url (ll_brokenLinks s) @ (u # bs)"
      by simp
    moreover have "set (u # bs) \<subseteq> set (u # us)" using bs by auto
    moreover have "distinct (u # us) \<longrightarrow> distinct (u # bs)" using bs by auto
    ultimately show ?thesis by blast
  qed
qed

lemma checkEach_chain:
  "\<forall>l \<in> set (ll_brokenLinks s). ls_redirectChainLength l = 0 \<or> ls_redirectChainLength l = 1 \<Longrightarrow>
   \<forall>l \<in> set (ll_brokenLinks (checkEach P domain et rl us s)).
      ls_redirectChainLength l = 0 \<or> ls_redirectChainLength l = 1"
proof (induction us arbitrary: s)
  case Nil
  then show ?case by simp
next
  case (Cons u us)
  have "\<forall>l \<in> set (ll_brokenLinks (checkOne P domain et rl u s)).
          ls_redirectChainLength l = 0 \<or> ls_redirectChainLength l = 1"
    using checkOne_step [of P domain et rl u s] Cons.prems by auto
  from Cons.IH [OF this] show ?case by simp
qed

lemma Set_add_set: "set (Set_add xs x) = insert x (set xs)"
  by (auto simp: Set_add_def)

lemma Set_add_distinct: "distinct xs \<Longrightarrow> distinct (Set_add xs x)"
  by (auto simp: Set_add_def)

lemma foldl_Set_add: "set (foldl Set_add acc xs) = set acc \<union> set xs"
  by (induction xs arbitrary: acc) (auto simp: Set_add_set)

lemma foldl_Set_add_distinct: "distinct acc \<Longrightarrow> distinct (foldl Set_add acc xs)"
  by (induction xs arbitrary: acc) (auto simp: Set_add_distinct)

lemma Set_of_set: "set (Set_of xs) = set xs"
  by (simp add: Set_of_def foldl_Set_add)

lemma Set_of_distinct: "distinct (Set_of xs)"
  by (simp add: Set_of_def foldl_Set_add_distinct)

lemma Set_of_length: "length (Set_of xs) = card (set xs)"
  using distinct_card [OF Set_of_distinct, of xs] by (simp add: Set_of_set)

lemma checkBrokenLinks_result:
  assumes "checkBrokenLinks P options w = (Inr res, w')"
  shows "\<exists>mission w0 st.
           createMissionControl P (linkDomain P options) w = Inr (mission, w0)
         \<and> st = checkEach P (linkDomain P options)
                  (case o_externalTimeout options of None \<Rightarrow> DEFAULT_TIMEOUT_links | Some x \<Rightarrow> x)
                  (case o_rateLimit options of None \<Rightarrow> RATE_LIMIT_MS_links | Some x \<Rightarrow> x)
                  (Set_of (candidateLinks P options mission w0))
                  \<lparr>ll_brokenLinks = [], ll_workingCount = 0, ll_world = w0\<rparr>
         \<and> brokenLinks res = ll_brokenLinks st
         \<and> workingLinks res = ll_workingCount st
         \<and> totalChecked res = int (length (Set_of (candidateLinks P options mission w0)))
         \<and> summary res = linkSummary (ll_brokenLinks st)"
  using assms
  by (auto simp: checkBrokenLinks_def Let_def split: if_splits sum.splits prod.splits)

text \<open>
  Claim C10. In every result that \<^verbatim>\<open>checkBrokenLinks\<close> returns, each candidate link is
  counted once, as working or as broken: \<open>workingLinks\<close> plus the number of \<open>brokenLinks\<close>
  entries is \<open>totalChecked\<close>, \<open>totalChecked\<close> is the number of distinct candidate URLs, and
  the broken entries carry pairwise different candidate URLs.
\<close>

theorem checkBrokenLinks_counts_each_once:
  assumes "checkBrokenLinks P options w = (Inr res, w')"
  shows "workingLinks res + int (length (brokenLinks res)) = totalChecked res
       \<and> (\<exists>mission w0. createMissionControl P (linkDomain P options) w = Inr (mission, w0)
            \<and> totalChecked res = int (card (set (candidateLinks P options mission w0)))
            \<and> set (map ls_url (brokenLinks res)) \<subseteq> set (candidateLinks P options mission w0))
       \<and> distinct (map ls_url (brokenLinks res))"
proof -
  let ?d = "linkDomain P options"
  let ?et = "case o_externalTimeout options of None \<Rightarrow> DEFAULT_TIMEOUT_links | Some x \<Rightarrow> x"
  let ?rl = "case o_rateLimit options of None \<Rightarrow> RATE_LIMIT_MS_links | Some x \<Rightarrow> x"
  from checkBrokenLinks_result [OF assms]
  obtain mission w0 where m: "createMissionControl P ?d w = Inr (mission, w0)"
    and b: "brokenLinks res = ll_brokenLinks (checkEach P ?d ?et ?rl (Set_of (candidateLinks P options mission w0))
                  \<lparr>ll_brokenLinks = [], ll_workingCount = 0, ll_world = w0\<rparr>)"
    and k: "workingLinks res = ll_workingCount (checkEach P ?d ?et ?rl (Set_of (candidateLinks P options mission w0))
                  \<lparr>ll_brokenLinks = [], ll_workingCount = 0, ll_world = w0\<rparr>)"
    and t: "totalChecked res = int (length (Set_of (candidateLinks P options mission w0)))"
    by blast
  let ?all = "Set_of (candidateLinks P options mission w0)"
  let ?s0 = "\<lparr>ll_brokenLinks = [], ll_workingCount = 0, ll_world = w0\<rparr>"
  have sum: "workingLinks res + int (length (brokenLinks res)) = totalChecked res"
    using checkEach_count [of P ?d ?et ?rl ?all ?s0] b k t by simp
  obtain bs where bs: "map ls_url (brokenLinks res) = bs" "set bs \<subseteq> set ?all" "distinct bs"
    using checkEach_urls [of P ?d ?et ?rl ?all ?s0] b Set_of_distinct [of "candidateLinks P options mission w0"]
    by auto
  have card: "totalChecked res = int (card (set (candidateLinks P options mission w0)))"
    using t by (simp add: Set_of_length)
  from bs have sub: "set (map ls_url (brokenLinks res)) \<subseteq> set (candidateLinks P options mission w0)"
    by (simp add: Set_of_set)
  from bs have dist: "distinct (map ls_url (brokenLinks res))" by simp
  from sum m card sub dist show ?thesis by blast
qed

theorem checkBrokenLinks_counts_each_once_witness:
  "\<not> isl (fst (checkBrokenLinks (static_platform linkSite) linkOptions 0))
   \<and> workingLinks (projr (fst (checkBrokenLinks (static_platform linkSite) linkOptions 0)))
       + int (length (brokenLinks (projr (fst (checkBrokenLinks (static_platform linkSite) linkOptions 0)))))
       = totalChecked (projr (fst (checkBrokenLinks (static_platform linkSite) linkOptions 0)))
   \<and> totalChecked (projr (fst (checkBrokenLinks (static_platform linkSite) linkOptions 0))) = 4"
proof -
  let ?run = "checkBrokenLinks (static_platform linkSite) linkOptions 0"
  have ok: "\<not> isl (fst ?run)" by code_simp
  then have e: "?run = (Inr (projr (fst ?run)), snd ?run)"
    by (cases ?run; cases "fst ?run") auto
  have n: "totalChecked (projr (fst ?run)) = 4" by code_simp
  from checkBrokenLinks_counts_each_once [OF e] ok n show ?thesis by blast
qed


lemma linkSummary_404:
  "ls_status st = 404 \<Longrightarrow> total404 (linkSummary (bl @ [st])) = total404 (linkSummary bl) + 1"
  by (simp add: linkSummary_def)

lemma linkSummary_timeout:
  "ls_status st = 0 \<Longrightarrow> ls_error st = Some m \<Longrightarrow> str_includes m ''timeout'' \<Longrightarrow>
   totalTimeouts (linkSummary (bl @ [st])) = totalTimeouts (linkSummary bl) + 1
   \<and> total404 (linkSummary (bl @ [st])) = total404 (linkSummary bl)"
  by (simp add: linkSummary_def)

text \<open>
  Claim C8. A link check is classified as working exactly when its status is in [200,400):
  the status is the response's status when there is a response and 0 otherwise. A response
  with status 404 gives a broken entry with status 404, counted in \<open>total404\<close>. A probe that
  times out (axios rejects with code \<^verbatim>\<open>ECONNABORTED\<close>, or with an \<^verbatim>\<open>Error\<close> whose message
  contains \<^verbatim>\<open>timeout\<close>) gives a broken entry with status 0 whose error contains
  \<^verbatim>\<open>timeout\<close>, counted in \<open>totalTimeouts\<close> and not in \<open>total404\<close>. The loop appends every
  entry that is not working to \<open>brokenLinks\<close>, and the summary of a result is computed from
  that list.
\<close>

theorem checkLink_working_404_timeout:
  "(\<exists>st w'. checkLink P u t w = (Inr st, w')
      \<and> (ls_isWorking st \<longleftrightarrow> 200 \<le> ls_status st \<and> ls_status st < 400)
      \<and> (\<forall>r. fst (axios_head P u t w) = Inr r \<longrightarrow> ls_status st = r_status r)
      \<and> (\<forall>r. fst (axios_head P u t w) = Inr r \<and> r_status r = 404 \<longrightarrow>
             \<not> ls_isWorking st \<and> ls_status st = 404
             \<and> total404 (linkSummary (bl @ [st])) = total404 (linkSummary bl) + 1)
      \<and> (\<forall>e. fst (axios_head P u t w) = Inl e
               \<and> (code e = Some ''ECONNABORTED'' \<or> isError e \<and> str_includes (message e) ''timeout'') \<longrightarrow>
             \<not> ls_isWorking st \<and> ls_status st = 0
             \<and> (\<exists>m. ls_error st = Some m \<and> str_includes m ''timeout'')
             \<and> totalTimeouts (linkSummary (bl @ [st])) = totalTimeouts (linkSummary bl) + 1
             \<and> total404 (linkSummary (bl @ [st])) = total404 (linkSummary bl)))
   \<and> (\<exists>st w'. checkLink P u (if isSameDomain P u domain then DEFAULT_TIMEOUT_links else et)
                 (sleep P rl (ll_world s)) = (Inr st, w')
         \<and> ll_brokenLinks (checkOne P domain et rl u s)
             = (if ls_isWorking st then ll_brokenLinks s else ll_brokenLinks s @ [st]))
   \<and> (\<forall>res w1. checkBrokenLinks P options w0 = (Inr res, w1) \<longrightarrow>
          summary res = linkSummary (brokenLinks res))"
proof (intro conjI)
  show "\<exists>st w'. checkLink P u t w = (Inr st, w')
      \<and> (ls_isWorking st \<longleftrightarrow> 200 \<le> ls_status st \<and> ls_status st < 400)
      \<and> (\<forall>r. fst (axios_head P u t w) = Inr r \<longrightarrow> ls_status st = r_status r)
      \<and> (\<forall>r. fst (axios_head P u t w) = Inr r \<and> r_status r = 404 \<longrightarrow>
             \<not> ls_isWorking st \<and> ls_status st = 404
             \<and> total404 (linkSummary (bl @ [st])) = total404 (linkSummary bl) + 1)
      \<and> (\<forall>e. fst (axios_head P u t w) = Inl e
               \<and> (code e = Some ''ECONNABORTED'' \<or> isError e \<and> str_includes (message e) ''timeout'') \<longrightarrow>
             \<not> ls_isWorking st \<and> ls_status st = 0
             \<and> (\<exists>m. ls_error st = Some m \<and> str_includes m ''timeout'')
             \<and> totalTimeouts (linkSummary (bl @ [st])) = totalTimeouts (linkSummary bl) + 1
             \<and> total404 (linkSummary (bl @ [st])) = total404 (linkSummary bl))"
    using checkLink_cases [of P u t w]
  proof (elim disjE exE conjE)
    fix r w'
    assume a: "axios_head P u t w = (Inr r, w')"
      and c: "checkLink P u t w = (Inr \<lparr>ls_url = u, ls_status = r_status r,
                     ls_statusText = r_statusText r,
                     ls_isWorking = (r_status r \<ge> 200 \<and> r_status r < 400),
                     ls_redirectUrl = orElse (r_dataLocation r) (r_headersLocation r),
                     ls_redirectChainLength = (case r_request r of None \<Rightarrow> 0 | Some q \<Rightarrow> if q \<noteq> Some u then 1 else 0),
                     ls_responseTime = Date_now P w' - Date_now P w,
                     ls_error = None\<rparr>, w')"
    show ?thesis
      unfolding c a by (simp add: linkSummary_404)
  next
    fix e w'
    assume a: "axios_head P u t w = (Inl e, w')"
      and c: "checkLink P u t w = (Inr \<lparr>ls_url = u, ls_status = 0,
                     ls_statusText = (if code e = Some ''ECONNABORTED'' \<or> (isError e \<and> str_includes (message e) ''timeout'') then ''Timeout'' else ''Error''),
                     ls_isWorking = False,
                     ls_redirectUrl = None,
                     ls_redirectChainLength = 0,
                     ls_responseTime = Date_now P w' - Date_now P w,
                     ls_error = Some (if code e = Some ''ECONNABORTED'' \<or> (isError e \<and> str_includes (message e) ''timeout'') then ''Request timeout'' else errorMsgOf e)\<rparr>, w')"
    show ?thesis
      unfolding c a using includes_Request_timeout by (auto simp: linkSummary_def)
  qed
next
  show "\<exists>st w'. checkLink P u (if isSameDomain P u domain then DEFAULT_TIMEOUT_links else et)
                 (sleep P rl (ll_world s)) = (Inr st, w')
         \<and> ll_brokenLinks (checkOne P domain et rl u s)
             = (if ls_isWorking st then ll_brokenLinks s else ll_brokenLinks s @ [st])"
    using checkOne_cases [of P u domain et rl s] by auto
next
  show "\<forall>res w1. checkBrokenLinks P options w0 = (Inr res, w1) \<longrightarrow>
          summary res = linkSummary (brokenLinks res)"
    using checkBrokenLinks_result by fastforce
qed

theorem checkLink_working_404_timeout_witness:
  "fst (axios_head (static_platform linkSite) ''https://example.com/gone'' 10000 500)
     = Inr (headStatus 404 ''https://example.com/gone'')
   \<and> r_status (headStatus 404 ''https://example.com/gone'') = 404
   \<and> \<not> ls_isWorking (projr (fst (checkLink (static_platform linkSite) ''https://example.com/gone'' 10000 500)))
   \<and> ls_status (projr (fst (checkLink (static_platform linkSite) ''https://example.com/gone'' 10000 500))) = 404
   \<and> fst (axios_head (static_platform linkSite) ''https://example.com/slow'' 10000 500) = Inl timeoutError
   \<and> code timeoutError = Some ''ECONNABORTED''
   \<and> ls_status (projr (fst (checkLink (static_platform linkSite) ''https://example.com/slow'' 10000 500))) = 0
   \<and> (\<exists>m. ls_error (projr (fst (checkLink (static_platform linkSite) ''https://example.com/slow'' 10000 500))) = Some m
          \<and> str_includes m ''timeout'')
   \<and> \<not> isl (fst (checkBrokenLinks (static_platform linkSite) linkOptions 0))
   \<and> summary (projr (fst (checkBrokenLinks (static_platform linkSite) linkOptions 0)))
       = linkSummary (brokenLinks (projr (fst (checkBrokenLinks (static_platform linkSite) linkOptions 0))))
   \<and> total404 (summary (projr (fst (checkBrokenLinks (static_platform linkSite) linkOptions 0)))) = 2
   \<and> totalTimeouts (summary (projr (fst (checkBrokenLinks (static_platform linkSite) linkOptions 0)))) = 1"
proof -
  let ?P = "static_platform linkSite"
  let ?gone = "''https://example.com/gone''"
  let ?slow = "''https://example.com/slow''"
  let ?run = "checkBrokenLinks ?P linkOptions 0"
  have g: "fst (axios_head ?P ?gone 10000 500) = Inr (headStatus 404 ?gone)"
    by (simp add: static_platform_def linkSite_def)
  have g4: "r_status (headStatus 404 ?gone) = 404"
    by (simp add: headStatus_def)
  have sl: "fst (axios_head ?P ?slow 10000 500) = Inl timeoutError"
    by (simp add: static_platform_def linkSite_def)
  have tc: "code timeoutError = Some ''ECONNABORTED''"
    by (simp add: timeoutError_def)
  have ok: "\<not> isl (fst ?run)" by code_simp
  then have e: "?run = (Inr (projr (fst ?run)), snd ?run)"
    by (cases ?run; cases "fst ?run") auto
  have n4: "total404 (summary (projr (fst ?run))) = 2" by code_simp
  have nt: "totalTimeouts (summary (projr (fst ?run))) = 1" by code_simp
  from checkLink_working_404_timeout [of ?P ?gone 10000 500 "[]" domain et rl s linkOptions 0] g g4
  have a: "\<not> ls_isWorking (projr (fst (checkLink ?P ?gone 10000 500)))
         \<and> ls_status (projr (fst (checkLink ?P ?gone 10000 500))) = 404"
    by fastforce
  from checkLink_working_404_timeout [of ?P ?slow 10000 500 "[]" domain et rl s linkOptions 0] sl tc
  have b: "ls_status (projr (fst (checkLink ?P ?slow 10000 500))) = 0
         \<and> (\<exists>m. ls_error (projr (fst (checkLink ?P ?slow 10000 500))) = Some m \<and> str_includes m ''timeout'')"
    by fastforce
  from checkLink_working_404_timeout [of ?P ?gone 10000 500 "[]" domain et rl s linkOptions 0] e
  have c: "summary (projr (fst ?run)) = linkSummary (brokenLinks (projr (fst ?run)))"
    by blast
  from g g4 sl tc ok n4 nt a b c show ?thesis by blast
qed


text \<open>What \<^verbatim>\<open>checkLink\<close> makes of the chain length: 0 or 1, and 1 exactly when there is a response
  whose request object has a \<^verbatim>\<open>url\<close> property, defined or not, that is not the requested URL.
  No broken entry of a result has a chain length above 2.\<close>

lemma checkLink_chain_length:
  "\<exists>st w'. checkLink P u t w = (Inr st, w')
      \<and> (ls_redirectChainLength st = 0 \<or> ls_redirectChainLength st = 1)
      \<and> (ls_redirectChainLength st = 1 \<longleftrightarrow>
           (\<exists>r q. fst (axios_head P u t w) = Inr r \<and> r_request r = Some q \<and> q \<noteq> Some u))"
  using checkLink_cases [of P u t w]
  by (elim disjE exE conjE) (auto split: option.splits)

lemma checkLink_chain_without_url:
  assumes "fst (axios_head P u t w) = Inr r" and "r_request r = Some None"
  shows "ls_redirectChainLength (projr (fst (checkLink P u t w))) = 1"
proof -
  from checkLink_chain_length [of P u t w] obtain st w'
    where c: "checkLink P u t w = (Inr st, w')"
      and i: "ls_redirectChainLength st = 1 \<longleftrightarrow>
           (\<exists>r q. fst (axios_head P u t w) = Inr r \<and> r_request r = Some q \<and> q \<noteq> Some u)"
    by blast
  from assms have "\<exists>r q. fst (axios_head P u t w) = Inr r \<and> r_request r = Some q \<and> q \<noteq> Some u"
    by auto
  with i c show ?thesis by simp
qed

lemma totalRedirectChains_zero:
  assumes run: "checkBrokenLinks P options w0 = (Inr res, w1)"
  shows "(\<forall>l \<in> set (brokenLinks res). ls_redirectChainLength l = 0 \<or> ls_redirectChainLength l = 1)
       \<and> totalRedirectChains (summary res) = 0"
proof -
  from checkBrokenLinks_result [OF run]
  obtain st where b: "brokenLinks res = ll_brokenLinks st"
    and su: "summary res = linkSummary (ll_brokenLinks st)"
    and st: "\<exists>d et rl ls w. st = checkEach P d et rl ls \<lparr>ll_brokenLinks = [], ll_workingCount = 0, ll_world = w\<rparr>"
    by blast
  from st obtain d et rl ls w
    where "st = checkEach P d et rl ls \<lparr>ll_brokenLinks = [], ll_workingCount = 0, ll_world = w\<rparr>"
    by blast
  with checkEach_chain [of "\<lparr>ll_brokenLinks = [], ll_workingCount = 0, ll_world = w\<rparr>" P d et rl ls]
  have all01: "\<forall>l \<in> set (ll_brokenLinks st). ls_redirectChainLength l = 0 \<or> ls_redirectChainLength l = 1"
    by simp
  then have "filter (\<lambda>l. ls_redirectChainLength l > 2) (ll_brokenLinks st) = []"
    by (auto simp: filter_empty_conv)
  with su have "totalRedirectChains (summary res) = 0"
    by (simp add: linkSummary_def)
  with all01 b show ?thesis by simp
qed

text \<open>
  Claim C9 (the chain length is 1 exactly when the final request URL differs from the
  requested URL) against the code: the length is 0 or 1 and \<open>totalRedirectChains\<close> is 0 in
  every result, as the claim says, but the test that sets it to 1 compares the requested URL
  with \<^verbatim>\<open>response.request.url\<close>, a property that the client's request object does not have.
  The comparison is with \<^verbatim>\<open>undefined\<close>, so every probe that gets a response has chain length
  1, redirected or not. Below, \<^verbatim>\<open>/gone\<close> is answered with 404 by the requested URL itself and
  gets chain length 1, like \<^verbatim>\<open>/moved\<close>, which is redirected; only the probe that times out
  gets 0.
\<close>

theorem redirectChainLength_without_redirect:
  "fst (axios_head (static_platform linkSite) ''https://example.com/gone'' 10000 500)
     = Inr (headStatus 404 ''https://example.com/gone'')
   \<and> r_responseUrl (headStatus 404 ''https://example.com/gone'') = ''https://example.com/gone''
   \<and> r_request (headStatus 404 ''https://example.com/gone'') = Some None
   \<and> ls_redirectChainLength
        (projr (fst (checkLink (static_platform linkSite) ''https://example.com/gone'' 10000 500))) = 1
   \<and> map ls_url (brokenLinks (projr (fst (checkBrokenLinks (static_platform linkSite) linkOptions 0))))
       = [''https://example.com/gone'', ''https://example.com/slow'', ''https://example.com/moved'']
   \<and> map ls_redirectChainLength
        (brokenLinks (projr (fst (checkBrokenLinks (static_platform linkSite) linkOptions 0))))
       = [1, 0, 1]"
proof (intro conjI)
  show "fst (axios_head (static_platform linkSite) ''https://example.com/gone'' 10000 500)
     = Inr (headStatus 404 ''https://example.com/gone'')"
    by (simp add: static_platform_def linkSite_def)
  show "r_responseUrl (headStatus 404 ''https://example.com/gone'') = ''https://example.com/gone''"
    by (simp add: headStatus_def)
  show "r_request (headStatus 404 ''https://example.com/gone'') = Some None"
    by (simp add: headStatus_def)
  show "ls_redirectChainLength
        (projr (fst (checkLink (static_platform linkSite) ''https://example.com/gone'' 10000 500))) = 1"
    by code_simp
  show "map ls_url (brokenLinks (projr (fst (checkBrokenLinks (static_platform linkSite) linkOptions 0))))
       = [''https://example.com/gone'', ''https://example.com/slow'', ''https://example.com/moved'']"
    by code_simp
  show "map ls_redirectChainLength
        (brokenLinks (projr (fst (checkBrokenLinks (static_platform linkSite) linkOptions 0))))
       = [1, 0, 1]"
    by code_simp
qed

text \<open>What \<^verbatim>\<open>findOrphanedPages\<close> computes: the crawled URLs that no page lists as an internal
  link and that are not the string \<^verbatim>\<open>https://<domain>\<close>, each once, in crawl order.\<close>

lemma findOrphanedPages_some:
  "read_pages P (crawlDataPath mission) w = Some pgs \<Longrightarrow>
   findOrphanedPages P domain mission w =
     filter (\<lambda>u. u \<noteq> ''https://'' @ domain \<and> u \<notin> (\<Union>page \<in> set pgs. set (internal (links page))))
       (Set_of (map url pgs))"
  by (simp add: findOrphanedPages_def Let_def Set_of_set)

lemma findOrphanedPages_difference:
  assumes r: "read_pages P (crawlDataPath mission) w = Some pgs"
  shows "set (findOrphanedPages P domain mission w)
         = set (map url pgs) - (\<Union>page \<in> set pgs. set (internal (links page))) - {''https://'' @ domain}"
    and "distinct (findOrphanedPages P domain mission w)"
  unfolding findOrphanedPages_some [OF r] by (auto simp: Set_of_set Set_of_distinct)

lemma findOrphanedPages_bare_root:
  "findOrphanedPages (static_platform orphanSite) ''example.com'' mission w
     = [''https://example.com/c'']"
  by (simp add: findOrphanedPages_def static_platform_def orphanSite_def pageWith_def
      Set_of_def Set_add_def)

text \<open>
  Claim C7 (the site root is exempt from the orphan list) against the code: the code exempts
  the string \<^verbatim>\<open>https://<domain>\<close>, where the domain is the seed's host name without
  \<^verbatim>\<open>www.\<close>, and not the root page of the crawl. The two are the same only for a seed written
  exactly as \<^verbatim>\<open>https://<domain>\<close> (then the example of the claim holds, see
  \<open>findOrphanedPages_bare_root\<close>). A crawl from the seed \<^verbatim>\<open>https://example.com/\<close> files the
  root under that URL; with the root linking to \<^verbatim>\<open>/b\<close>, and \<^verbatim>\<open>/b\<close> and \<^verbatim>\<open>/c\<close> linking to
  nothing, the orphan list computed from the crawl's own pages is the root and \<^verbatim>\<open>/c\<close>, not
  \<^verbatim>\<open>/c\<close> alone.
\<close>

theorem findOrphanedPages_lists_root:
  "startUrl seedCrawl = ''https://example.com/''
   \<and> cr_domain seedCrawl = ''example.com''
   \<and> map (\<lambda>page. (url page, internal (links page))) (cr_pages seedCrawl)
       = [(''https://example.com/'', [''https://example.com/b'']),
          (''https://example.com/b'', []),
          (''https://example.com/c'', [])]
   \<and> read_pages (static_platform crawledSite) (crawlDataPath exampleMission) 0
       = Some (cr_pages seedCrawl)
   \<and> findOrphanedPages (static_platform crawledSite) (cr_domain seedCrawl) exampleMission 0
       = [''https://example.com/'', ''https://example.com/c'']"
proof (intro conjI)
  show "startUrl seedCrawl = ''https://example.com/''" by code_simp
  show "cr_domain seedCrawl = ''example.com''" by code_simp
  show "map (\<lambda>page. (url page, internal (links page))) (cr_pages seedCrawl)
       = [(''https://example.com/'', [''https://example.com/b'']),
          (''https://example.com/b'', []),
          (''https://example.com/c'', [])]"
    by code_simp
  show "read_pages (static_platform crawledSite) (crawlDataPath exampleMission) 0
       = Some (cr_pages seedCrawl)"
    by (simp add: static_platform_def crawledSite_def)
  show "findOrphanedPages (static_platform crawledSite) (cr_domain seedCrawl) exampleMission 0
       = [''https://example.com/'', ''https://example.com/c'']"
    by code_simp
qed


section \<open>Robots policy\<close>

text \<open>
  Claim C3 (allow overrides disallow) against the code: \<^verbatim>\<open>canCrawl\<close> returns false as soon
  as one disallow pattern matches, before any allow pattern is looked at, and the allow loop
  can only return true where the function would return true anyway. So \<^verbatim>\<open>canCrawl\<close> is the
  negation of "some disallow pattern matches", whatever the allow patterns are. With
  \<^verbatim>\<open>Disallow: /admin\<close> and \<^verbatim>\<open>Allow: /admin/public\<close> the path \<^verbatim>\<open>/admin/public\<close> matches both
  and is refused. The example of the specification, where no path matches both kinds of
  rule, evaluates as the specification says.
\<close>

theorem canCrawl_allow_has_no_effect:
  "canCrawl P st path = (\<not> testAny P (disallow st) path)
   \<and> parseRobotsText (static_platform noSite) robotsAllowInside ''Googlebot''
       = Inr \<lparr>currentAgent = ''*'', allow = [''^/admin/public''], disallow = [''^/admin''],
              canSitemap = True\<rparr>
   \<and> testAny (static_platform noSite) [''^/admin''] ''/admin/public''
   \<and> testAny (static_platform noSite) [''^/admin/public''] ''/admin/public''
   \<and> canCrawl (static_platform noSite)
        \<lparr>currentAgent = ''*'', allow = [''^/admin/public''], disallow = [''^/admin''],
         canSitemap = True\<rparr> ''/admin/public'' = False
   \<and> map (canCrawl (static_platform noSite)
             (projr (parseRobotsText (static_platform noSite) robotsSpecExample ''Googlebot'')))
         [''/public'', ''/admin'', ''/other''] = [True, False, True]"
proof (intro conjI)
  show "map (canCrawl (static_platform noSite)
             (projr (parseRobotsText (static_platform noSite) robotsSpecExample ''Googlebot'')))
         [''/public'', ''/admin'', ''/other''] = [True, False, True]"
    by code_simp
  show "canCrawl P st path = (\<not> testAny P (disallow st) path)"
    by (simp add: canCrawl_def)
  show "parseRobotsText (static_platform noSite) robotsAllowInside ''Googlebot''
       = Inr \<lparr>currentAgent = ''*'', allow = [''^/admin/public''], disallow = [''^/admin''],
              canSitemap = True\<rparr>"
    by code_simp
  show "testAny (static_platform noSite) [''^/admin''] ''/admin/public''"
    by code_simp
  show "testAny (static_platform noSite) [''^/admin/public''] ''/admin/public''"
    by code_simp
  show "canCrawl (static_platform noSite)
        \<lparr>currentAgent = ''*'', allow = [''^/admin/public''], disallow = [''^/admin''],
         canSitemap = True\<rparr> ''/admin/public'' = False"
    by code_simp
qed

text \<open>
  Claim C4 (rules of other agents never contribute) against the code: a \<^verbatim>\<open>User-agent\<close> line
  that does not match leaves \<^verbatim>\<open>currentAgent\<close> as it is, so after a matching block the
  directives of a following block for another crawler are still added. For Googlebot, the
  document below yields both \<^verbatim>\<open>/a\<close> (wildcard block) and \<^verbatim>\<open>/b\<close> (Bingbot's block) as
  disallow rules, and \<^verbatim>\<open>/b\<close> is refused.
\<close>

theorem parseRobotsText_keeps_rules_of_other_agent:
  "parseRobotsText (static_platform noSite) robotsTwoBlocks ''Googlebot''
       = Inr \<lparr>currentAgent = ''*'', allow = [], disallow = [''^/a'', ''^/b''], canSitemap = True\<rparr>
   \<and> canCrawl (static_platform noSite)
        \<lparr>currentAgent = ''*'', allow = [], disallow = [''^/a'', ''^/b''], canSitemap = True\<rparr>
        ''/b'' = False"
proof (intro conjI)
  show "parseRobotsText (static_platform noSite) robotsTwoBlocks ''Googlebot''
       = Inr \<lparr>currentAgent = ''*'', allow = [], disallow = [''^/a'', ''^/b''], canSitemap = True\<rparr>"
    by code_simp
  show "canCrawl (static_platform noSite)
        \<lparr>currentAgent = ''*'', allow = [], disallow = [''^/a'', ''^/b''], canSitemap = True\<rparr>
        ''/b'' = False"
    by code_simp
qed


section \<open>URL normalisation\<close>

text \<open>
  Claim C5. \<^verbatim>\<open>normalizeUrl\<close> returns an input that starts with \<^verbatim>\<open>http://\<close> or \<^verbatim>\<open>https://\<close>
  unchanged. Otherwise, with a base that parses: an input starting with \<^verbatim>\<open>/\<close> becomes the
  base's protocol and host followed by the input; an input starting with \<^verbatim>\<open>#\<close> or \<^verbatim>\<open>?\<close> is
  appended to the base; any other input is resolved against the base by the platform's
  \<^verbatim>\<open>URL\<close> class. Where there is no base, the base does not parse, or the resolution fails,
  the input comes back unchanged; the function is total. On the static platform the three
  examples of the specification evaluate as stated.
\<close>

theorem normalizeUrl_resolution:
  "(startsWith u ''http://'' \<or> startsWith u ''https://'' \<longrightarrow> normalizeUrl P u b = u)
   \<and> (\<not> startsWith u ''http://'' \<and> \<not> startsWith u ''https://''
        \<and> b = Some bs \<and> bs \<noteq> [] \<and> new_URL P bs = Some base \<longrightarrow>
        (startsWith u ''/'' \<longrightarrow> normalizeUrl P u b = protocol base @ ''//'' @ host base @ u)
      \<and> (\<not> startsWith u ''/'' \<and> (startsWith u ''#'' \<or> startsWith u ''?'') \<longrightarrow>
            normalizeUrl P u b = bs @ u)
      \<and> (\<not> startsWith u ''/'' \<and> \<not> startsWith u ''#'' \<and> \<not> startsWith u ''?'' \<longrightarrow>
            normalizeUrl P u b = (case new_URL_base P u bs of None \<Rightarrow> u | Some r \<Rightarrow> href r)))
   \<and> (\<not> startsWith u ''http://'' \<and> \<not> startsWith u ''https://''
        \<and> (b = None \<or> b = Some [] \<or> (\<exists>bs. b = Some bs \<and> new_URL P bs = None)) \<longrightarrow>
        normalizeUrl P u b = u)
   \<and> normalizeUrl (static_platform noSite) ''/about'' (Some ''https://example.com/page/'')
        = ''https://example.com/about''
   \<and> normalizeUrl (static_platform noSite) ''contact'' (Some ''https://example.com/page/'')
        = ''https://example.com/page/contact''
   \<and> normalizeUrl (static_platform noSite) ''../about'' (Some ''https://example.com/page/subpage/'')
        = ''https://example.com/page/about''"
proof (intro conjI)
  show "startsWith u ''http://'' \<or> startsWith u ''https://'' \<longrightarrow> normalizeUrl P u b = u"
    by (simp add: normalizeUrl_def)
  show "\<not> startsWith u ''http://'' \<and> \<not> startsWith u ''https://''
        \<and> b = Some bs \<and> bs \<noteq> [] \<and> new_URL P bs = Some base \<longrightarrow>
        (startsWith u ''/'' \<longrightarrow> normalizeUrl P u b = protocol base @ ''//'' @ host base @ u)
      \<and> (\<not> startsWith u ''/'' \<and> (startsWith u ''#'' \<or> startsWith u ''?'') \<longrightarrow>
            normalizeUrl P u b = bs @ u)
      \<and> (\<not> startsWith u ''/'' \<and> \<not> startsWith u ''#'' \<and> \<not> startsWith u ''?'' \<longrightarrow>
            normalizeUrl P u b = (case new_URL_base P u bs of None \<Rightarrow> u | Some r \<Rightarrow> href r))"
    by (simp add: normalizeUrl_def truthy_def)
  show "\<not> startsWith u ''http://'' \<and> \<not> startsWith u ''https://''
        \<and> (b = None \<or> b = Some [] \<or> (\<exists>bs. b = Some bs \<and> new_URL P bs = None)) \<longrightarrow>
        normalizeUrl P u b = u"
    by (auto simp: normalizeUrl_def truthy_def)
  show "normalizeUrl (static_platform noSite) ''/about'' (Some ''https://example.com/page/'')
        = ''https://example.com/about''"
    by code_simp
  show "normalizeUrl (static_platform noSite) ''contact'' (Some ''https://example.com/page/'')
        = ''https://example.com/page/contact''"
    by code_simp
  show "normalizeUrl (static_platform noSite) ''../about'' (Some ''https://example.com/page/subpage/'')
        = ''https://example.com/page/about''"
    by code_simp
qed

theorem normalizeUrl_resolution_witness:
  "startsWith ''https://example.com/x'' ''https://''
   \<and> normalizeUrl (static_platform noSite) ''https://example.com/x'' None = ''https://example.com/x''
   \<and> new_URL (static_platform noSite) ''https://example.com/page/''
        = Some (mkURL ''https:'' ''example.com'' [''page'', []] [] [])
   \<and> normalizeUrl (static_platform noSite) ''/about'' (Some ''https://example.com/page/'')
        = ''https:'' @ ''//'' @ ''example.com'' @ ''/about''
   \<and> normalizeUrl (static_platform noSite) ''#top'' (Some ''https://example.com/page/'')
        = ''https://example.com/page/'' @ ''#top''
   \<and> normalizeUrl (static_platform noSite) ''contact'' (Some ''https://example.com/page/'')
        = ''https://example.com/page/contact''
   \<and> new_URL (static_platform noSite) ''no base'' = None
   \<and> normalizeUrl (static_platform noSite) ''contact'' (Some ''no base'') = ''contact''"
proof -
  let ?P = "static_platform noSite"
  let ?b = "''https://example.com/page/''"
  let ?B = "mkURL ''https:'' ''example.com'' [''page'', []] [] []"
  have a: "startsWith ''https://example.com/x'' ''https://''" by code_simp
  have p: "new_URL ?P ?b = Some ?B" by code_simp
  have pB: "protocol ?B = ''https:''" "host ?B = ''example.com''" by code_simp+
  have n: "new_URL ?P ''no base'' = None" by code_simp
  have r: "new_URL_base ?P ''contact'' ?b
             = Some (mkURL ''https:'' ''example.com'' [''page'', ''contact''] [] [])" by code_simp
  have hr: "href (mkURL ''https:'' ''example.com'' [''page'', ''contact''] [] [])
             = ''https://example.com/page/contact''" by code_simp
  have s1: "\<not> startsWith ''/about'' ''http://''" "\<not> startsWith ''/about'' ''https://''"
    "startsWith ''/about'' ''/''" by code_simp+
  have s2: "\<not> startsWith ''#top'' ''http://''" "\<not> startsWith ''#top'' ''https://''"
    "\<not> startsWith ''#top'' ''/''" "startsWith ''#top'' ''#''" by code_simp+
  have s3: "\<not> startsWith ''contact'' ''http://''" "\<not> startsWith ''contact'' ''https://''"
    "\<not> startsWith ''contact'' ''/''" "\<not> startsWith ''contact'' ''#''"
    "\<not> startsWith ''contact'' ''?''" by code_simp+
  have c1: "normalizeUrl ?P ''https://example.com/x'' None = ''https://example.com/x''"
    using normalizeUrl_resolution [of "''https://example.com/x''" ?P None] a by blast
  have c2: "normalizeUrl ?P ''/about'' (Some ?b) = ''https:'' @ ''//'' @ ''example.com'' @ ''/about''"
    using normalizeUrl_resolution [of "''/about''" ?P "Some ?b" ?b ?B] s1 p pB by simp
  have c3: "normalizeUrl ?P ''#top'' (Some ?b) = ?b @ ''#top''"
    using normalizeUrl_resolution [of "''#top''" ?P "Some ?b" ?b ?B] s2 p by simp
  have c4: "normalizeUrl ?P ''contact'' (Some ?b) = ''https://example.com/page/contact''"
    using normalizeUrl_resolution [of "''contact''" ?P "Some ?b" ?b ?B] s3 p r hr by simp
  have c5: "normalizeUrl ?P ''contact'' (Some ''no base'') = ''contact''"
    using normalizeUrl_resolution [of "''contact''" ?P "Some ''no base''"] s3 n by simp
  from a c1 p c2 c3 c4 n c5 show ?thesis by blast
qed


section \<open>The crawl\<close>

lemma crawlPage_never_rejects: "\<exists>m. fst (crawlPage P u domain rl w) = Inr m"
  by (simp add: crawlPage_def Let_def split: prod.splits sum.splits)

lemma crawlPage_url:
  "crawlPage P u domain rl w = (Inr (Some m), w') \<Longrightarrow> url m = u"
  by (auto simp: crawlPage_def Let_def split: prod.splits sum.splits)

lemma crawlPage_failed:
  "fst (get_page P u (if rl > 0 then sleep P rl w else w)) = Inl e \<Longrightarrow>
   fst (crawlPage P u domain rl w) = Inr None"
  by (cases "rl > 0") (auto simp: crawlPage_def Let_def split: prod.splits sum.splits)

lemma crawlPage_fetched:
  "fst (get_page P u (if rl > 0 then sleep P rl w else w)) = Inr facts \<Longrightarrow>
   \<exists>m. fst (crawlPage P u domain rl w) = Inr (Some m)"
  by (cases "rl > 0") (auto simp: crawlPage_def Let_def split: prod.splits sum.splits)

lemma Map_set_absent: "\<not> Map_has m k \<Longrightarrow> Map_set m k v = m @ [(k, v)]"
  by (induction m k v rule: Map_set.induct) (auto simp: Map_has_def)

lemma Map_set_keys_present: "Map_has m k \<Longrightarrow> map fst (Map_set m k v) = map fst m"
  by (induction m k v rule: Map_set.induct) (auto simp: Map_has_def)

lemma Map_set_keys: "map fst (Map_set m k v) = (if Map_has m k then map fst m else map fst m @ [k])"
  by (simp add: Map_set_absent Map_set_keys_present)

lemma Map_set_entries: "set (Map_set m k v) \<subseteq> insert (k, v) (set m)"
  by (induction m k v rule: Map_set.induct) auto

lemma storedUrls_append: "storedUrls (xs @ ys) = storedUrls xs @ storedUrls ys"
  by (induction xs rule: storedUrls.induct) auto

declare recursiveCrawl.simps [simp del]

lemma rc_stop:
  assumes "of_int depth > a_maxDepth a \<or> of_int (Map_size (pages s0)) \<ge> a_maxPages a \<or> Map_has (pages s0) pageUrl"
  shows "recursiveCrawl P a pageUrl depth s0 = s0\<lparr>trace := trace s0 @ [Enter pageUrl depth]\<rparr>"
  using assms by (subst recursiveCrawl.simps, elim disjE) (simp_all add: Let_def)

lemma rc_bad_url:
  assumes "new_URL P pageUrl = None"
  shows "recursiveCrawl P a pageUrl depth s0 = s0\<lparr>trace := trace s0 @ [Enter pageUrl depth]\<rparr>"
  using assms by (subst recursiveCrawl.simps) (simp add: Let_def)

lemma rc_denied:
  assumes "new_URL P pageUrl = Some urlObj" "\<not> a_canCrawlFn a (pathname urlObj)"
  shows "recursiveCrawl P a pageUrl depth s0 = s0\<lparr>trace := trace s0 @ [Enter pageUrl depth]\<rparr>"
  using assms by (subst recursiveCrawl.simps) (simp add: Let_def)

lemma rc_fetch:
  assumes "\<not> of_int depth > a_maxDepth a" "\<not> of_int (Map_size (pages s0)) \<ge> a_maxPages a" "\<not> Map_has (pages s0) pageUrl"
    "new_URL P pageUrl = Some urlObj" "a_canCrawlFn a (pathname urlObj)"
    "crawlPage P pageUrl (a_domain a) 0 (sleep P (a_rateLimit a) (world s0)) = (Inr mo, w2)"
  shows "recursiveCrawl P a pageUrl depth s0 =
           (case mo of
              None \<Rightarrow> s0\<lparr>trace := trace s0 @ [Enter pageUrl depth], world := w2\<rparr>
            | Some metadata \<Rightarrow>
                crawlLinks P a (internal (links metadata)) depth
                  (s0\<lparr>trace := trace s0 @ [Enter pageUrl depth],
                      pages := Map_set (pages s0) pageUrl metadata, world := w2,
                      trace := trace s0 @ [Enter pageUrl depth, Stored pageUrl depth]\<rparr>))"
  using assms by (subst recursiveCrawl.simps) (simp add: Let_def split: option.splits)

text \<open>Whatever is kept by logging an event, by a change of the world, and by storing a page
  under a new key within the two limits, is kept by the whole traversal.\<close>

lemma crawl_preserves:
  assumes enter: "\<And>a s u d. I a s \<Longrightarrow> I a (s\<lparr>trace := trace s @ [Enter u d]\<rparr>)"
    and wld: "\<And>a s w. I a s \<Longrightarrow> I a (s\<lparr>world := w\<rparr>)"
    and store: "\<And>a s u d m w. I a s \<Longrightarrow> \<not> Map_has (pages s) u \<Longrightarrow> \<not> of_int d > a_maxDepth a \<Longrightarrow>
        \<not> of_int (Map_size (pages s)) \<ge> a_maxPages a \<Longrightarrow> url m = u \<Longrightarrow>
        I a (s\<lparr>pages := Map_set (pages s) u m, world := w, trace := trace s @ [Stored u d]\<rparr>)"
  shows "I a s \<Longrightarrow> I a (recursiveCrawl P a u d s)"
    and "I a s \<Longrightarrow> I a (crawlLinks P a ls d s)"
proof (induction P a u d s and P a ls d s rule: recursiveCrawl_crawlLinks.induct)
  case (1 P a pageUrl depth s0)
  let ?s = "s0\<lparr>trace := trace s0 @ [Enter pageUrl depth]\<rparr>"
  have inv: "I a ?s" using "1.prems" by (rule enter)
  show ?case
  proof (cases "of_int depth > a_maxDepth a \<or> of_int (Map_size (pages s0)) \<ge> a_maxPages a \<or> Map_has (pages s0) pageUrl")
    case True
    show ?thesis unfolding rc_stop [OF True] by (rule inv)
  next
    case go: False
    show ?thesis
    proof (cases "new_URL P pageUrl")
      case None
      show ?thesis unfolding rc_bad_url [OF None] by (rule inv)
    next
      case (Some urlObj)
      note uo = Some
      show ?thesis
      proof (cases "a_canCrawlFn a (pathname urlObj)")
        case False
        show ?thesis unfolding rc_denied [OF uo False] by (rule inv)
      next
        case True
        let ?w1 = "sleep P (a_rateLimit a) (world s0)"
        obtain r w2 where cp: "crawlPage P pageUrl (a_domain a) 0 ?w1 = (r, w2)"
          by (cases "crawlPage P pageUrl (a_domain a) 0 ?w1")
        obtain mo where r: "r = Inr mo"
          using crawlPage_never_rejects [of P pageUrl "a_domain a" 0 ?w1] cp by auto
        from go have g: "\<not> of_int depth > a_maxDepth a" "\<not> of_int (Map_size (pages s0)) \<ge> a_maxPages a"
          "\<not> Map_has (pages s0) pageUrl" by auto
        note eq = rc_fetch [OF g uo True cp [unfolded r]]
        show ?thesis
        proof (cases mo)
          case None
          have "I a (?s\<lparr>world := w2\<rparr>)" using inv by (rule wld)
          then show ?thesis unfolding eq None by simp
        next
          case (Some metadata)
          let ?s2 = "?s\<lparr>pages := Map_set (pages ?s) pageUrl metadata, world := w2,
                         trace := trace ?s @ [Stored pageUrl depth]\<rparr>"
          have um: "url metadata = pageUrl"
            by (rule crawlPage_url [OF cp [unfolded r Some]])
          have g': "\<not> Map_has (pages ?s) pageUrl" "\<not> of_int depth > a_maxDepth a"
            "\<not> of_int (Map_size (pages ?s)) \<ge> a_maxPages a" using g by simp_all
          have inv2: "I a ?s2"
            by (rule store [OF inv g' um])
          have c1: "\<not> (a_maxDepth a < of_int depth \<or> a_maxPages a \<le> of_int (Map_size (pages ?s)))"
            using g by simp
          have c2: "\<not> \<not> a_canCrawlFn a (pathname urlObj)" using True by simp
          have cp': "(r, w2) = crawlPage P pageUrl (a_domain a) 0 (sleep P (a_rateLimit a) (world ?s))"
            using cp by simp
          have "I a (crawlLinks P a (internal (links metadata)) depth ?s2)"
            by (rule "1.IH" [OF refl c1 g'(1) uo c2 refl cp' r Some inv2])
          then show ?thesis unfolding eq Some by simp
        qed
      qed
    qed
  qed
next
  case (2 P a depth s)
  then show ?case by simp
next
  case (3 P a link rest depth s)
  show ?case
  proof (cases "\<not> Map_has (pages s) link \<and> of_int (Map_size (pages s)) < a_maxPages a")
    case True
    with "3.IH"(1) "3.prems" have "I a (recursiveCrawl P a link (depth + 1) s)" by simp
    with "3.IH"(2) True show ?thesis by simp
  next
    case False
    with "3.IH"(2) "3.prems" show ?thesis by auto
  qed
qed

lemma crawlInv_store:
  assumes inv: "crawlInv K0 M a s" and absent: "\<not> Map_has (pages s) u"
    and dep: "\<not> of_int d > a_maxDepth a"
    and room: "\<not> of_int (Map_size (pages s)) \<ge> a_maxPages a" and um: "url m = u"
  shows "crawlInv K0 M a (s\<lparr>pages := Map_set (pages s) u m, world := w,
                              trace := trace s @ [Stored u d]\<rparr>)"
proof -
  from room have "of_int (Map_size (pages s)) < a_maxPages a" by simp
  then have "Map_size (pages s) < \<lceil>a_maxPages a\<rceil>" by (simp add: less_ceiling_iff)
  with inv have sz: "Map_size (pages s) + 1 \<le> M" by (simp add: crawlInv_def)
  have len: "Map_size (Map_set (pages s) u m) = Map_size (pages s) + 1"
    using absent by (simp add: Map_set_absent Map_size_def)
  from dep have dd: "of_int d \<le> a_maxDepth a" by simp
  show ?thesis
    unfolding crawlInv_def
  proof (intro conjI)
    show "\<lceil>a_maxPages a\<rceil> \<le> M" using inv by (simp add: crawlInv_def)
    show "Map_size (pages (s\<lparr>pages := Map_set (pages s) u m, world := w,
                              trace := trace s @ [Stored u d]\<rparr>)) \<le> M"
      using sz len by simp
    show "map fst (pages (s\<lparr>pages := Map_set (pages s) u m, world := w,
                              trace := trace s @ [Stored u d]\<rparr>))
            = K0 @ storedUrls (trace (s\<lparr>pages := Map_set (pages s) u m, world := w,
                              trace := trace s @ [Stored u d]\<rparr>))"
      using inv absent by (simp add: crawlInv_def storedUrls_append Map_set_absent)
    show "distinct (map fst (pages (s\<lparr>pages := Map_set (pages s) u m, world := w,
                              trace := trace s @ [Stored u d]\<rparr>)))"
      using inv absent by (auto simp: crawlInv_def Map_set_absent Map_has_def)
    show "\<forall>(k, m') \<in> set (pages (s\<lparr>pages := Map_set (pages s) u m, world := w,
                              trace := trace s @ [Stored u d]\<rparr>)). url m' = k"
      using inv absent um by (auto simp: crawlInv_def Map_set_absent)
    show "\<forall>u' d'. Stored u' d' \<in> set (trace (s\<lparr>pages := Map_set (pages s) u m, world := w,
                              trace := trace s @ [Stored u d]\<rparr>)) \<longrightarrow> of_int d' \<le> a_maxDepth a"
      using inv dd by (auto simp: crawlInv_def)
  qed
qed

lemma crawlInv_preserved:
  "crawlInv K0 M a s \<Longrightarrow> crawlInv K0 M a (recursiveCrawl P a u d s)"
proof (rule crawl_preserves(1) [where I = "crawlInv K0 M"])
  show "\<And>a s u d. crawlInv K0 M a s \<Longrightarrow> crawlInv K0 M a (s\<lparr>trace := trace s @ [Enter u d]\<rparr>)"
    by (auto simp: crawlInv_def storedUrls_append)
  show "\<And>a s w. crawlInv K0 M a s \<Longrightarrow> crawlInv K0 M a (s\<lparr>world := w\<rparr>)"
    by (auto simp: crawlInv_def)
  show "\<And>a s u d m w. crawlInv K0 M a s \<Longrightarrow> \<not> Map_has (pages s) u \<Longrightarrow> \<not> of_int d > a_maxDepth a \<Longrightarrow>
        \<not> of_int (Map_size (pages s)) \<ge> a_maxPages a \<Longrightarrow> url m = u \<Longrightarrow>
        crawlInv K0 M a (s\<lparr>pages := Map_set (pages s) u m, world := w, trace := trace s @ [Stored u d]\<rparr>)"
    by (rule crawlInv_store)
qed

lemma crawl_errors_unchanged: "errors (recursiveCrawl P a u d s) = errors s"
proof -
  define E where "E = errors s"
  have "errors (recursiveCrawl P a u d s) = E"
    by (rule crawl_preserves(1) [where I = "\<lambda>a s. errors s = E"]) (simp_all add: E_def)
  then show ?thesis by (simp add: E_def)
qed

lemma slice0_length:
  assumes "0 \<le> n"
  shows "int (length (slice0 xs n)) = min (int (length xs)) \<lfloor>n\<rfloor>"
proof -
  from assms have k: "0 \<le> \<lfloor>n\<rfloor>" by simp
  with assms have "slice0 xs n = take (nat \<lfloor>n\<rfloor>) xs"
    by (simp add: slice0_def toInteger_def Let_def)
  then have "int (length (slice0 xs n)) = int (min (length xs) (nat \<lfloor>n\<rfloor>))" by simp
  also have "\<dots> = min (int (length xs)) \<lfloor>n\<rfloor>" using k by (simp add: min_def) linarith
  finally show ?thesis .
qed

lemma saveResults_state:
  "pages (snd (saveResults P u domain mission t0 found s)) = pages s
   \<and> trace (snd (saveResults P u domain mission t0 found s)) = trace s"
  by (simp add: saveResults_def crawlFailed_def Let_def split: sum.splits)

lemma saveResults_result:
  "fst (saveResults P u domain mission t0 found s) = Inr r \<Longrightarrow>
   cr_pages r = Map_values (pages s) \<and> totalPages r = Map_size (pages s)
   \<and> sitemapFound r = found \<and> cr_errors r = errors s"
  by (auto simp: saveResults_def crawlFailed_def Let_def split: sum.splits)

lemma crawlFailed_state:
  "pages (snd (crawlFailed P u e s)) = pages s \<and> trace (snd (crawlFailed P u e s)) = trace s
   \<and> isl (fst (crawlFailed P u e s))"
  by (simp add: crawlFailed_def Let_def)

text \<open>The four ways through \<^verbatim>\<open>crawlWebsite\<close>: it throws before the crawl starts; it takes the
  sitemap path; the robots document cannot be compiled; it takes the recursive path.\<close>

lemma crawlWebsite_paths:
  "(isl (fst (crawlWebsite P options w)) \<and> pages (snd (crawlWebsite P options w)) = []
      \<and> trace (snd (crawlWebsite P options w)) = [])
   \<or> (\<exists>mission w0 sm w1.
         createMissionControl P (extractDomain P (c_url options)) w = Inr (mission, w0)
       \<and> fetchSitemap P (sitemapUrlOf P (c_url options)) w0 = (sm, w1)
       \<and> sm \<noteq> []
       \<and> crawlWebsite P options w =
           saveResults P (c_url options) (extractDomain P (c_url options)) mission (Date_now P w) True
             (sitemapLoop P (extractDomain P (c_url options)) (optRateLimit options)
                (slice0 sm (optMaxPages options))
                \<lparr>pages = [], errors = [], world = w1, trace = []\<rparr>))
   \<or> (\<exists>mission w0 w1 a w2.
         createMissionControl P (extractDomain P (c_url options)) w = Inr (mission, w0)
       \<and> fetchSitemap P (sitemapUrlOf P (c_url options)) w0 = ([], w1)
       \<and> a_maxDepth a = optMaxDepth options \<and> a_maxPages a = optMaxPages options
       \<and> crawlWebsite P options w =
           saveResults P (c_url options) (extractDomain P (c_url options)) mission (Date_now P w) False
             (recursiveCrawl P a (c_url options) 0
                \<lparr>pages = [], errors = [], world = w2, trace = []\<rparr>))"
proof (cases "isValidUrl P (c_url options)")
  case False
  then show ?thesis by (simp add: crawlWebsite_def Let_def)
next
  case valid: True
  show ?thesis
  proof (cases "createMissionControl P (extractDomain P (c_url options)) w")
    case (Inl e)
    with valid show ?thesis by (simp add: crawlWebsite_def Let_def)
  next
    case (Inr mw)
    obtain mission w0 where mw: "mw = (mission, w0)" by (cases mw)
    obtain sm w1 where fs: "fetchSitemap P (sitemapUrlOf P (c_url options)) w0 = (sm, w1)"
      by (cases "fetchSitemap P (sitemapUrlOf P (c_url options)) w0")
    show ?thesis
    proof (cases "sm = []")
      case False
      with valid Inr mw fs have "crawlWebsite P options w =
           saveResults P (c_url options) (extractDomain P (c_url options)) mission (Date_now P w) True
             (sitemapLoop P (extractDomain P (c_url options)) (optRateLimit options)
                (slice0 sm (optMaxPages options))
                \<lparr>pages = [], errors = [], world = w1, trace = []\<rparr>)"
        by (simp add: crawlWebsite_def Let_def)
      with Inr mw fs False show ?thesis by blast
    next
      case True
      obtain robotsTxt w2 where fr: "fetchRobotsTxt P (c_url options) w1 = (robotsTxt, w2)"
        by (cases "fetchRobotsTxt P (c_url options) w1")
      let ?s2 = "\<lparr>pages = [], errors = [], world = w2, trace = []\<rparr>"
      show ?thesis
      proof (cases "optRespectRobotsTxt options")
        case respect: True
        show ?thesis
        proof (cases "parseRobotsText P robotsTxt ''Googlebot''")
          case (Inl e)
          with valid \<open>createMissionControl P (extractDomain P (c_url options)) w = Inr mw\<close> mw fs True fr respect
          have "crawlWebsite P options w = crawlFailed P (c_url options) e ?s2"
            by (simp add: crawlWebsite_def Let_def)
          then show ?thesis using crawlFailed_state [of P "c_url options" e ?s2] by simp
        next
          case (Inr rules)
          let ?a = "\<lparr>a_domain = extractDomain P (c_url options), a_canCrawlFn = canCrawl P rules,
                     a_maxDepth = optMaxDepth options, a_maxPages = optMaxPages options,
                     a_rateLimit = optRateLimit options\<rparr>"
          from valid \<open>createMissionControl P (extractDomain P (c_url options)) w = Inr mw\<close> mw fs True fr respect Inr
          have "crawlWebsite P options w =
             saveResults P (c_url options) (extractDomain P (c_url options)) mission (Date_now P w) False
               (recursiveCrawl P ?a (c_url options) 0 ?s2)"
            by (simp add: crawlWebsite_def Let_def)
          moreover have "a_maxDepth ?a = optMaxDepth options \<and> a_maxPages ?a = optMaxPages options"
            by simp
          ultimately show ?thesis
            using \<open>createMissionControl P (extractDomain P (c_url options)) w = Inr mw\<close> mw fs True
            by blast
        qed
      next
        case False
        let ?a = "\<lparr>a_domain = extractDomain P (c_url options), a_canCrawlFn = (\<lambda>_. True),
                     a_maxDepth = optMaxDepth options, a_maxPages = optMaxPages options,
                     a_rateLimit = optRateLimit options\<rparr>"
        from valid Inr mw fs True fr False
        have "crawlWebsite P options w =
             saveResults P (c_url options) (extractDomain P (c_url options)) mission (Date_now P w) False
               (recursiveCrawl P ?a (c_url options) 0 ?s2)"
          by (simp add: crawlWebsite_def Let_def)
        moreover have "a_maxDepth ?a = optMaxDepth options \<and> a_maxPages ?a = optMaxPages options"
          by simp
        ultimately show ?thesis using Inr mw fs True by blast
      qed
    qed
  qed
qed

lemma Map_set_distinct: "distinct (map fst m) \<Longrightarrow> distinct (map fst (Map_set m k v))"
  by (simp add: Map_set_keys Map_has_def)

lemma Map_set_length: "length (Map_set m k v) = (if Map_has m k then length m else length m + 1)"
  using arg_cong [OF Map_set_keys [of m k v], of length] by (simp split: if_splits)

lemma Map_set_url:
  "\<forall>(k, m) \<in> set ms. url m = k \<Longrightarrow> url v = k' \<Longrightarrow> \<forall>(k, m) \<in> set (Map_set ms k' v). url m = k"
  using Map_set_entries [of ms k' v] by auto

text \<open>One round of the sitemap loop: the page is filed under its URL, or nothing but the
  world changes; a fetch that succeeds files the page.\<close>

lemma sitemapLoop_step:
  "\<exists>s1. sitemapLoop P dm rl (u # rest) s = sitemapLoop P dm rl rest s1
        \<and> trace s1 = trace s \<and> errors s1 = errors s
        \<and> (pages s1 = pages s \<or> (\<exists>m. url m = u \<and> pages s1 = Map_set (pages s) u m))
        \<and> ((\<exists>facts. fst (get_page P u (if rl > 0 then sleep P rl (world s) else world s)) = Inr facts)
             \<longrightarrow> (\<exists>m. url m = u \<and> pages s1 = Map_set (pages s) u m))"
proof -
  obtain r w' where cp: "crawlPage P u dm rl (world s) = (r, w')"
    by (cases "crawlPage P u dm rl (world s)")
  obtain mo where r: "r = Inr mo"
    using crawlPage_never_rejects [of P u dm rl "world s"] cp by auto
  show ?thesis
  proof (cases mo)
    case None
    have "\<not> (\<exists>facts. fst (get_page P u (if rl > 0 then sleep P rl (world s) else world s)) = Inr facts)"
      using crawlPage_fetched [of P u rl "world s" _ dm] cp r None by auto
    moreover have "sitemapLoop P dm rl (u # rest) s = sitemapLoop P dm rl rest (s\<lparr>world := w'\<rparr>)"
      using cp r None by simp
    ultimately show ?thesis by force
  next
    case (Some m)
    have um: "url m = u" by (rule crawlPage_url [OF cp [unfolded r Some]])
    have "sitemapLoop P dm rl (u # rest) s
            = sitemapLoop P dm rl rest (s\<lparr>pages := Map_set (pages s) u m, world := w'\<rparr>)"
      using cp r Some by simp
    with um show ?thesis by force
  qed
qed

lemma sitemapLoop_inv:
  "distinct (map fst (pages s)) \<Longrightarrow> \<forall>(k, m) \<in> set (pages s). url m = k \<Longrightarrow>
   distinct (map fst (pages (sitemapLoop P dm rl us s)))
   \<and> (\<forall>(k, m) \<in> set (pages (sitemapLoop P dm rl us s)). url m = k)
   \<and> trace (sitemapLoop P dm rl us s) = trace s
   \<and> errors (sitemapLoop P dm rl us s) = errors s
   \<and> length (pages (sitemapLoop P dm rl us s)) \<le> length (pages s) + length us"
proof (induction us arbitrary: s)
  case Nil
  then show ?case by simp
next
  case (Cons u us)
  obtain s1 where s1: "sitemapLoop P dm rl (u # us) s = sitemapLoop P dm rl us s1"
    "trace s1 = trace s" "errors s1 = errors s"
    "pages s1 = pages s \<or> (\<exists>m. url m = u \<and> pages s1 = Map_set (pages s) u m)"
    using sitemapLoop_step [of P dm rl u us s] by blast
  have d1: "distinct (map fst (pages s1))"
    using s1(4) Cons.prems(1) Map_set_distinct by auto
  have u1: "\<forall>(k, m) \<in> set (pages s1). url m = k"
    using s1(4) Cons.prems(2) Map_set_url by fastforce
  have l1: "length (pages s1) \<le> length (pages s) + 1"
    using s1(4) by (auto simp: Map_set_length)
  from Cons.IH [OF d1 u1] s1(1,2,3) l1 show ?case by simp
qed

lemma crawlPage_get_failed:
  "get_page P u (if rl > 0 then sleep P rl w else w) = (Inl e, w') \<Longrightarrow>
   crawlPage P u dm rl w = (Inr None, w')"
  by (cases "rl > 0") (simp_all add: crawlPage_def Let_def)

lemma crawlPage_get_ok:
  "get_page P u (if rl > 0 then sleep P rl w else w) = (Inr facts, w') \<Longrightarrow>
   \<exists>m. crawlPage P u dm rl w = (Inr (Some m), w')"
  by (cases "rl > 0") (simp_all add: crawlPage_def Let_def)

lemma Map_set_keys_Set_add: "map fst (Map_set m k v) = Set_add (map fst m) k"
  by (simp add: Map_set_keys Set_add_def Map_has_def)

text \<open>The keys after the sitemap loop: the keys before it, then the URLs whose fetch
  succeeded, each added once.\<close>

lemma sitemapLoop_keys:
  "map fst (pages (sitemapLoop P dm rl us s))
     = foldl Set_add (map fst (pages s)) (sitemapFetched P rl us (world s))"
proof (induction us arbitrary: s)
  case Nil
  show ?case by simp
next
  case (Cons u us)
  obtain r w' where g: "get_page P u (if rl > 0 then sleep P rl (world s) else world s) = (r, w')"
    by (cases "get_page P u (if rl > 0 then sleep P rl (world s) else world s)")
  show ?case
  proof (cases r)
    case (Inl e)
    have cp: "crawlPage P u dm rl (world s) = (Inr None, w')"
      by (rule crawlPage_get_failed [OF g [unfolded Inl]])
    have "sitemapLoop P dm rl (u # us) s = sitemapLoop P dm rl us (s\<lparr>world := w'\<rparr>)"
      using cp by simp
    moreover have "sitemapFetched P rl (u # us) (world s) = sitemapFetched P rl us w'"
      using g Inl by simp
    ultimately show ?thesis using Cons.IH [of "s\<lparr>world := w'\<rparr>"] by simp
  next
    case (Inr facts)
    obtain m where cp: "crawlPage P u dm rl (world s) = (Inr (Some m), w')"
      using crawlPage_get_ok [OF g [unfolded Inr]] by blast
    let ?s1 = "s\<lparr>pages := Map_set (pages s) u m, world := w'\<rparr>"
    have "sitemapLoop P dm rl (u # us) s = sitemapLoop P dm rl us ?s1"
      using cp by simp
    moreover have "sitemapFetched P rl (u # us) (world s) = u # sitemapFetched P rl us w'"
      using g Inr by simp
    ultimately show ?thesis using Cons.IH [of ?s1] by (simp add: Map_set_keys_Set_add)
  qed
qed

lemma sitemapFetched_sub:
  "set (sitemapFetched P rl us w) \<subseteq> set us \<and> length (sitemapFetched P rl us w) \<le> length us"
proof (induction us arbitrary: w)
  case Nil
  show ?case by simp
next
  case (Cons u us)
  obtain r w' where g: "get_page P u (if rl > 0 then sleep P rl w else w) = (r, w')"
    by (cases "get_page P u (if rl > 0 then sleep P rl w else w)")
  show ?case using g Cons.IH [of w'] by (cases r) (auto simp: le_SucI)
qed

lemma Map_values_urls: "\<forall>(k, m) \<in> set ms. url m = k \<Longrightarrow> map url (Map_values ms) = map fst ms"
  by (induction ms) (auto simp: Map_values_def)

lemma crawlInv_start:
  "0 \<le> a_maxPages a \<Longrightarrow>
   crawlInv [] \<lceil>a_maxPages a\<rceil> a \<lparr>pages = [], errors = [], world = w, trace = []\<rparr>"
  by (simp add: crawlInv_def Map_size_def)

text \<open>What holds of the map and the trace after any run of \<^verbatim>\<open>crawlWebsite\<close> with a page
  limit that is not negative.\<close>

lemma crawlWebsite_state:
  assumes mp: "0 \<le> optMaxPages options"
  shows "Map_size (pages (snd (crawlWebsite P options w))) \<le> \<lceil>optMaxPages options\<rceil>
       \<and> distinct (map fst (pages (snd (crawlWebsite P options w))))
       \<and> (\<forall>(k, m) \<in> set (pages (snd (crawlWebsite P options w))). url m = k)
       \<and> (\<forall>u d. Stored u d \<in> set (trace (snd (crawlWebsite P options w)))
             \<longrightarrow> of_int d \<le> optMaxDepth options)
       \<and> (trace (snd (crawlWebsite P options w)) = []
           \<or> map fst (pages (snd (crawlWebsite P options w)))
                = storedUrls (trace (snd (crawlWebsite P options w))))"
  using crawlWebsite_paths [of P options w]
proof (elim disjE exE conjE)
  assume "pages (snd (crawlWebsite P options w)) = []" "trace (snd (crawlWebsite P options w)) = []"
  with mp show ?thesis by (simp add: Map_size_def)
next
  fix mission w0 sm w1
  let ?init = "\<lparr>pages = [], errors = [], world = w1, trace = []\<rparr> :: 'a Crawl"
  let ?s = "sitemapLoop P (extractDomain P (c_url options)) (optRateLimit options)
                (slice0 sm (optMaxPages options)) ?init"
  assume eq: "crawlWebsite P options w =
           saveResults P (c_url options) (extractDomain P (c_url options)) mission (Date_now P w) True ?s"
  have st: "pages (snd (crawlWebsite P options w)) = pages ?s"
    "trace (snd (crawlWebsite P options w)) = trace ?s"
    unfolding eq using saveResults_state by blast+
  have inv: "distinct (map fst (pages ?s)) \<and> (\<forall>(k, m) \<in> set (pages ?s). url m = k)
     \<and> trace ?s = trace ?init \<and> errors ?s = errors ?init
     \<and> length (pages ?s) \<le> length (pages ?init) + length (slice0 sm (optMaxPages options))"
    by (rule sitemapLoop_inv) simp_all
  have "int (length (pages ?s)) \<le> int (length (slice0 sm (optMaxPages options)))"
    using inv by simp
  also have "\<dots> \<le> \<lfloor>optMaxPages options\<rfloor>"
    using slice0_length [OF mp, of sm] by simp
  also have "\<dots> \<le> \<lceil>optMaxPages options\<rceil>" by (rule floor_le_ceiling)
  finally have "Map_size (pages ?s) \<le> \<lceil>optMaxPages options\<rceil>" by (simp add: Map_size_def)
  with inv st show ?thesis by simp
next
  fix mission w0 w1 a w2
  let ?init = "\<lparr>pages = [], errors = [], world = w2, trace = []\<rparr> :: 'a Crawl"
  let ?s = "recursiveCrawl P a (c_url options) 0 ?init"
  assume a: "a_maxDepth a = optMaxDepth options" "a_maxPages a = optMaxPages options"
    and eq: "crawlWebsite P options w =
           saveResults P (c_url options) (extractDomain P (c_url options)) mission (Date_now P w) False ?s"
  have st: "pages (snd (crawlWebsite P options w)) = pages ?s"
    "trace (snd (crawlWebsite P options w)) = trace ?s"
    unfolding eq using saveResults_state by blast+
  have "crawlInv [] \<lceil>a_maxPages a\<rceil> a ?init"
    by (rule crawlInv_start) (use mp a in simp)
  then have "crawlInv [] \<lceil>a_maxPages a\<rceil> a ?s" by (rule crawlInv_preserved)
  then have "\<lceil>a_maxPages a\<rceil> \<le> \<lceil>a_maxPages a\<rceil> \<and> Map_size (pages ?s) \<le> \<lceil>a_maxPages a\<rceil>
     \<and> map fst (pages ?s) = storedUrls (trace ?s)
     \<and> distinct (map fst (pages ?s))
     \<and> (\<forall>(k, m) \<in> set (pages ?s). url m = k)
     \<and> (\<forall>u d. Stored u d \<in> set (trace ?s) \<longrightarrow> of_int d \<le> a_maxDepth a)"
    unfolding crawlInv_def append_Nil .
  then have i: "Map_size (pages ?s) \<le> \<lceil>a_maxPages a\<rceil>" "map fst (pages ?s) = storedUrls (trace ?s)"
    "distinct (map fst (pages ?s))" "\<forall>(k, m) \<in> set (pages ?s). url m = k"
    "\<forall>u d. Stored u d \<in> set (trace ?s) \<longrightarrow> of_int d \<le> a_maxDepth a"
    by blast+
  show ?thesis unfolding st using i unfolding a by blast
qed

text \<open>
  Claim C1 as stated fails on the page limit. The limit is a number that need not be whole,
  and the traversal stores a page whenever the size is below it: with a limit of two and a
  half pages on a site of three pages, the map ends with three. A negative limit is exceeded
  as well: with a limit of -1 and a sitemap of two URLs, the sitemap path stores one page.
\<close>

theorem crawl_page_limit_counterexample:
  "optMaxPages fractionOptions = 5 / 2
   \<and> Map_size (pages (snd (crawlWebsite (static_platform starSite) fractionOptions 0))) = 3
   \<and> \<not> of_int (Map_size (pages (snd (crawlWebsite (static_platform starSite) fractionOptions 0))))
         \<le> optMaxPages fractionOptions
   \<and> optMaxPages negativeOptions = - 1
   \<and> Map_size (pages (snd (crawlWebsite (static_platform sitemapOkSite) negativeOptions 0))) = 1
   \<and> \<not> of_int (Map_size (pages (snd (crawlWebsite (static_platform sitemapOkSite) negativeOptions 0))))
         \<le> optMaxPages negativeOptions"
proof (intro conjI)
  show "optMaxPages fractionOptions = 5 / 2" by code_simp
  show "Map_size (pages (snd (crawlWebsite (static_platform starSite) fractionOptions 0))) = 3"
    by code_simp
  show "\<not> of_int (Map_size (pages (snd (crawlWebsite (static_platform starSite) fractionOptions 0))))
         \<le> optMaxPages fractionOptions"
    by code_simp
  show "optMaxPages negativeOptions = - 1" by code_simp
  show "Map_size (pages (snd (crawlWebsite (static_platform sitemapOkSite) negativeOptions 0))) = 1"
    by code_simp
  show "\<not> of_int (Map_size (pages (snd (crawlWebsite (static_platform sitemapOkSite) negativeOptions 0))))
         \<le> optMaxPages negativeOptions"
    by code_simp
qed

text \<open>
  Claim C1, amended. For every run of \<^verbatim>\<open>crawlWebsite\<close>, on the sitemap path or the recursive
  path, with a page limit that is not negative: the map never holds more than \<open>maxPages\<close>
  rounded up to a whole number, so never more than \<open>maxPages\<close> when that is whole; no key
  occurs twice, and the pages of the result carry pairwise different URLs; every
  \<^verbatim>\<open>pages.set\<close> of the recursive crawl happens at a depth of at most \<open>maxDepth\<close>, and on the
  recursive path the keys are exactly the URLs stored, each once. The traversal is a total
  function, so it returns on every site; on the site where the root links to itself and to
  a page that links back, the crawl ends with the two pages, each entered once.
\<close>

theorem crawl_bounded_deduplicated:
  assumes run: "crawlWebsite P options w = (out, s)"
    and mp: "0 \<le> optMaxPages options"
  shows "Map_size (pages s) \<le> \<lceil>optMaxPages options\<rceil>
       \<and> (\<forall>n. optMaxPages options = of_int n \<longrightarrow> Map_size (pages s) \<le> n)
       \<and> distinct (map fst (pages s))
       \<and> (\<forall>u d. Stored u d \<in> set (trace s) \<longrightarrow> of_int d \<le> optMaxDepth options)
       \<and> (trace s = [] \<or> map fst (pages s) = storedUrls (trace s))
       \<and> (\<forall>r. out = Inr r \<longrightarrow>
             map url (cr_pages r) = map fst (pages s) \<and> distinct (map url (cr_pages r))
             \<and> totalPages r \<le> \<lceil>optMaxPages options\<rceil>)
       \<and> map fst (pages (snd (crawlWebsite (static_platform cycleSite) crawlOptions 0)))
           = [''https://example.com/'', ''https://example.com/b'']
       \<and> trace (snd (crawlWebsite (static_platform cycleSite) crawlOptions 0))
           = [Enter ''https://example.com/'' 0, Stored ''https://example.com/'' 0,
              Enter ''https://example.com/b'' 1, Stored ''https://example.com/b'' 1]"
proof -
  from crawlWebsite_state [OF mp, of P w] run
  have st: "Map_size (pages s) \<le> \<lceil>optMaxPages options\<rceil>" "distinct (map fst (pages s))"
    "\<forall>(k, m) \<in> set (pages s). url m = k"
    "\<forall>u d. Stored u d \<in> set (trace s) \<longrightarrow> of_int d \<le> optMaxDepth options"
    "trace s = [] \<or> map fst (pages s) = storedUrls (trace s)"
    by simp_all
  have whole: "Map_size (pages s) \<le> n" if "optMaxPages options = of_int n" for n
    using st(1) that by simp
  have res: "map url (cr_pages r) = map fst (pages s) \<and> distinct (map url (cr_pages r))
             \<and> totalPages r \<le> \<lceil>optMaxPages options\<rceil>" if "out = Inr r" for r
  proof -
    have "\<not> isl (fst (crawlWebsite P options w))" using run that by simp
    with crawlWebsite_paths [of P options w]
    have "\<exists>mission t0 found s'. crawlWebsite P options w = saveResults P (c_url options)
        (extractDomain P (c_url options)) mission t0 found s'"
      by (elim disjE exE conjE) blast+
    then obtain mission t0 found s' where eq: "crawlWebsite P options w = saveResults P (c_url options)
        (extractDomain P (c_url options)) mission t0 found s'"
      by blast
    let ?sv = "saveResults P (c_url options) (extractDomain P (c_url options)) mission t0 found s'"
    have "?sv = (Inr r, s)" using eq run that by simp
    then have fs: "fst ?sv = Inr r" "snd ?sv = s" by simp_all
    have "pages s = pages s'"
      using saveResults_state [of P "c_url options" "extractDomain P (c_url options)" mission t0 found s']
      unfolding fs by simp
    moreover have "cr_pages r = Map_values (pages s') \<and> totalPages r = Map_size (pages s')"
      using saveResults_result [OF fs(1)] by simp
    ultimately show ?thesis using st Map_values_urls [of "pages s"] by simp
  qed
  have e1: "map fst (pages (snd (crawlWebsite (static_platform cycleSite) crawlOptions 0)))
           = [''https://example.com/'', ''https://example.com/b'']"
    by code_simp
  have e2: "trace (snd (crawlWebsite (static_platform cycleSite) crawlOptions 0))
           = [Enter ''https://example.com/'' 0, Stored ''https://example.com/'' 0,
              Enter ''https://example.com/b'' 1, Stored ''https://example.com/b'' 1]"
    by code_simp
  from st whole res e1 e2 show ?thesis by blast
qed

theorem crawl_bounded_deduplicated_witness:
  "0 \<le> optMaxPages crawlOptions
   \<and> optMaxPages crawlOptions = of_int 100
   \<and> Map_size (pages (snd (crawlWebsite (static_platform cycleSite) crawlOptions 0))) \<le> 100
   \<and> distinct (map fst (pages (snd (crawlWebsite (static_platform cycleSite) crawlOptions 0))))
   \<and> \<not> isl (fst (crawlWebsite (static_platform cycleSite) crawlOptions 0))
   \<and> distinct (map url (cr_pages (projr (fst (crawlWebsite (static_platform cycleSite) crawlOptions 0)))))
   \<and> Map_size (pages (snd (crawlWebsite (static_platform sitemapOkSite) crawlOptions 0))) \<le> 100
   \<and> distinct (map fst (pages (snd (crawlWebsite (static_platform sitemapOkSite) crawlOptions 0))))
   \<and> 0 \<le> optMaxPages fractionOptions
   \<and> Map_size (pages (snd (crawlWebsite (static_platform starSite) fractionOptions 0)))
       \<le> \<lceil>optMaxPages fractionOptions\<rceil>"
proof -
  let ?run = "crawlWebsite (static_platform cycleSite) crawlOptions 0"
  let ?run2 = "crawlWebsite (static_platform sitemapOkSite) crawlOptions 0"
  let ?run3 = "crawlWebsite (static_platform starSite) fractionOptions 0"
  have e2: "?run2 = (fst ?run2, snd ?run2)" by simp
  have e3: "?run3 = (fst ?run3, snd ?run3)" by simp
  have mp: "0 \<le> optMaxPages crawlOptions" by code_simp
  have mp3: "0 \<le> optMaxPages fractionOptions" by code_simp
  have m: "optMaxPages crawlOptions = of_int 100" by code_simp
  have ok: "\<not> isl (fst ?run)" by code_simp
  then have o: "fst ?run = Inr (projr (fst ?run))" by (cases "fst ?run") auto
  have e: "?run = (fst ?run, snd ?run)" by simp
  from crawl_bounded_deduplicated [OF e mp] m o
  have a: "Map_size (pages (snd ?run)) \<le> 100" "distinct (map fst (pages (snd ?run)))"
    "distinct (map url (cr_pages (projr (fst ?run))))"
    by blast+
  from crawl_bounded_deduplicated [OF e2 mp] m
  have b: "Map_size (pages (snd ?run2)) \<le> 100" "distinct (map fst (pages (snd ?run2)))"
    by blast+
  from crawl_bounded_deduplicated [OF e3 mp3]
  have c: "Map_size (pages (snd ?run3)) \<le> \<lceil>optMaxPages fractionOptions\<rceil>" by blast
  from mp m a ok b mp3 c show ?thesis by blast
qed

text \<open>
  Claim C2 (every failed fetch appends one Crawl Error) against the code: \<^verbatim>\<open>crawlPage\<close>
  catches every exception of the fetch and returns \<^verbatim>\<open>null\<close>, so the catch block of
  \<^verbatim>\<open>recursiveCrawl\<close>, the only place that appends to \<^verbatim>\<open>errors\<close> during the traversal, is
  never reached: the traversal leaves \<^verbatim>\<open>errors\<close> as it found it. On a site where the fetch
  of the seed fails, the crawl returns no page and an empty error list.
\<close>

theorem failed_fetch_records_no_error:
  "errors (recursiveCrawl P a u d s) = errors s
   \<and> fst (get_page (static_platform noSite) ''https://example.com/'' 1000) = Inl networkError
   \<and> errors (recursiveCrawl (static_platform noSite) crawlArgs ''https://example.com/'' 0 emptyCrawl) = []
   \<and> pages (recursiveCrawl (static_platform noSite) crawlArgs ''https://example.com/'' 0 emptyCrawl) = []
   \<and> \<not> isl (fst (crawlWebsite (static_platform noSite) crawlOptions 0))
   \<and> cr_errors (projr (fst (crawlWebsite (static_platform noSite) crawlOptions 0))) = []
   \<and> cr_pages (projr (fst (crawlWebsite (static_platform noSite) crawlOptions 0))) = []"
proof (intro conjI)
  show "errors (recursiveCrawl P a u d s) = errors s"
    by (rule crawl_errors_unchanged)
  show "fst (get_page (static_platform noSite) ''https://example.com/'' 1000) = Inl networkError"
    by (simp add: static_platform_def noSite_def)
  show "errors (recursiveCrawl (static_platform noSite) crawlArgs ''https://example.com/'' 0 emptyCrawl) = []"
    by code_simp
  show "pages (recursiveCrawl (static_platform noSite) crawlArgs ''https://example.com/'' 0 emptyCrawl) = []"
    by code_simp
  show "\<not> isl (fst (crawlWebsite (static_platform noSite) crawlOptions 0))"
    by code_simp
  show "cr_errors (projr (fst (crawlWebsite (static_platform noSite) crawlOptions 0))) = []"
    by code_simp
  show "cr_pages (projr (fst (crawlWebsite (static_platform noSite) crawlOptions 0))) = []"
    by code_simp
qed

text \<open>
  Claim C6 as stated fails: a sitemap page that cannot be fetched is not stored, so the
  map can hold fewer than min(N, maxPages) pages. The sitemap of \<open>sitemapSite\<close> lists one
  URL (N = 1, maxPages = 100) whose fetch fails, and the result holds no page. The limit
  need not be whole either: with a limit of one and a half pages and a sitemap of two URLs
  that are both served, the result holds one page.
\<close>

theorem sitemap_page_count_counterexample:
  "fetchSitemap (static_platform sitemapSite)
       (sitemapUrlOf (static_platform sitemapSite) (c_url crawlOptions)) 0
     = ([''https://example.com/a''], 0)
   \<and> \<not> isl (fst (crawlWebsite (static_platform sitemapSite) crawlOptions 0))
   \<and> sitemapFound (projr (fst (crawlWebsite (static_platform sitemapSite) crawlOptions 0)))
   \<and> totalPages (projr (fst (crawlWebsite (static_platform sitemapSite) crawlOptions 0))) = 0
   \<and> of_int (totalPages (projr (fst (crawlWebsite (static_platform sitemapSite) crawlOptions 0))))
       \<noteq> min (of_int (int (length [''https://example.com/a'']))) (optMaxPages crawlOptions)
   \<and> fetchSitemap (static_platform sitemapOkSite)
       (sitemapUrlOf (static_platform sitemapOkSite) (c_url halfOptions)) 0
     = ([''https://example.com/a'', ''https://example.com/b''], 0)
   \<and> \<not> isl (fst (crawlWebsite (static_platform sitemapOkSite) halfOptions 0))
   \<and> totalPages (projr (fst (crawlWebsite (static_platform sitemapOkSite) halfOptions 0))) = 1
   \<and> of_int (totalPages (projr (fst (crawlWebsite (static_platform sitemapOkSite) halfOptions 0))))
       \<noteq> min (of_int (int (length [''https://example.com/a'', ''https://example.com/b''])))
             (optMaxPages halfOptions)"
proof (intro conjI)
  show "fetchSitemap (static_platform sitemapSite)
       (sitemapUrlOf (static_platform sitemapSite) (c_url crawlOptions)) 0
     = ([''https://example.com/a''], 0)"
    by code_simp
  show "\<not> isl (fst (crawlWebsite (static_platform sitemapSite) crawlOptions 0))"
    by code_simp
  show "sitemapFound (projr (fst (crawlWebsite (static_platform sitemapSite) crawlOptions 0)))"
    by code_simp
  show "totalPages (projr (fst (crawlWebsite (static_platform sitemapSite) crawlOptions 0))) = 0"
    by code_simp
  show "of_int (totalPages (projr (fst (crawlWebsite (static_platform sitemapSite) crawlOptions 0))))
       \<noteq> min (of_int (int (length [''https://example.com/a'']))) (optMaxPages crawlOptions)"
    by code_simp
  show "fetchSitemap (static_platform sitemapOkSite)
       (sitemapUrlOf (static_platform sitemapOkSite) (c_url halfOptions)) 0
     = ([''https://example.com/a'', ''https://example.com/b''], 0)"
    by code_simp
  show "\<not> isl (fst (crawlWebsite (static_platform sitemapOkSite) halfOptions 0))"
    by code_simp
  show "totalPages (projr (fst (crawlWebsite (static_platform sitemapOkSite) halfOptions 0))) = 1"
    by code_simp
  show "of_int (totalPages (projr (fst (crawlWebsite (static_platform sitemapOkSite) halfOptions 0))))
       \<noteq> min (of_int (int (length [''https://example.com/a'', ''https://example.com/b''])))
             (optMaxPages halfOptions)"
    by code_simp
qed

text \<open>
  Claim C6, amended. When \<^verbatim>\<open>fetchSitemap\<close> yields N \<ge> 1 URLs, the page limit is not negative
  and \<^verbatim>\<open>crawlWebsite\<close> returns a result: the result is marked \<open>sitemapFound\<close>,
  \<^verbatim>\<open>recursiveCrawl\<close> is never entered (the trace is empty), and the pages of the result are,
  in order and each once, the URLs among the first min(N, \<lfloor>maxPages\<rfloor>) sitemap URLs whose
  fetch succeeded in this run. So the map holds at most min(N, \<lfloor>maxPages\<rfloor>) pages, and
  exactly that many when those URLs are pairwise different and every one of them is fetched
  successfully.
\<close>

theorem sitemap_page_count:
  assumes run: "crawlWebsite P options w = (Inr r, s)"
    and mission: "createMissionControl P (extractDomain P (c_url options)) w = Inr (mission, w0)"
    and sm: "fetchSitemap P (sitemapUrlOf P (c_url options)) w0 = (sitemapPages, w1)"
    and N: "1 \<le> length sitemapPages"
    and mp: "0 \<le> optMaxPages options"
  shows "sitemapFound r \<and> trace s = []
       \<and> map url (cr_pages r)
           = Set_of (sitemapFetched P (optRateLimit options)
                       (slice0 sitemapPages (optMaxPages options)) w1)
       \<and> totalPages r = int (length (cr_pages r))
       \<and> totalPages r = Map_size (pages s)
       \<and> totalPages r = int (card (set (sitemapFetched P (optRateLimit options)
                                          (slice0 sitemapPages (optMaxPages options)) w1)))
       \<and> int (length (slice0 sitemapPages (optMaxPages options)))
           = min (int (length sitemapPages)) \<lfloor>optMaxPages options\<rfloor>
       \<and> totalPages r \<le> min (int (length sitemapPages)) \<lfloor>optMaxPages options\<rfloor>
       \<and> (distinct (slice0 sitemapPages (optMaxPages options))
            \<and> sitemapFetched P (optRateLimit options) (slice0 sitemapPages (optMaxPages options)) w1
                = slice0 sitemapPages (optMaxPages options)
           \<longrightarrow> totalPages r = min (int (length sitemapPages)) \<lfloor>optMaxPages options\<rfloor>)"
proof -
  let ?init = "\<lparr>pages = [], errors = [], world = w1, trace = []\<rparr> :: 'a Crawl"
  let ?us = "slice0 sitemapPages (optMaxPages options)"
  let ?dm = "extractDomain P (c_url options)"
  let ?l = "sitemapLoop P ?dm (optRateLimit options) ?us ?init"
  let ?sv = "saveResults P (c_url options) ?dm mission (Date_now P w) True ?l"
  let ?f = "sitemapFetched P (optRateLimit options) ?us w1"
  have ne: "sitemapPages \<noteq> []" using N by auto
  have "\<not> isl (fst (crawlWebsite P options w))" using run by simp
  with crawlWebsite_paths [of P options w] mission sm ne
  have eq: "crawlWebsite P options w = ?sv"
    by (elim disjE exE conjE) simp_all
  have "?sv = (Inr r, s)" using eq run by simp
  then have fs: "fst ?sv = Inr r" "snd ?sv = s" by simp_all
  have res: "cr_pages r = Map_values (pages ?l)" "totalPages r = Map_size (pages ?l)" "sitemapFound r"
    using saveResults_result [OF fs(1)] by simp_all
  have st: "pages s = pages ?l" "trace s = trace ?l"
    using saveResults_state [of P "c_url options" ?dm mission "Date_now P w" True ?l]
    unfolding fs by simp_all
  have inv: "distinct (map fst (pages ?l)) \<and> (\<forall>(k, m) \<in> set (pages ?l). url m = k)
     \<and> trace ?l = trace ?init \<and> errors ?l = errors ?init
     \<and> length (pages ?l) \<le> length (pages ?init) + length ?us"
    by (rule sitemapLoop_inv) simp_all
  have keys: "map fst (pages ?l) = Set_of ?f"
    using sitemapLoop_keys [of P ?dm "optRateLimit options" ?us ?init] by (simp add: Set_of_def)
  have urls: "map url (cr_pages r) = Set_of ?f"
    unfolding res(1) using Map_values_urls [of "pages ?l"] inv keys by simp
  have len: "int (length ?us) = min (int (length sitemapPages)) \<lfloor>optMaxPages options\<rfloor>"
    by (rule slice0_length [OF mp])
  have t: "trace s = []" using st inv by simp
  have c: "totalPages r = int (length (cr_pages r))"
    using res by (simp add: Map_values_def Map_size_def)
  have p: "totalPages r = Map_size (pages s)" using res st by simp
  have "length (pages ?l) = length (map fst (pages ?l))" by simp
  also have "\<dots> = card (set ?f)" unfolding keys by (rule Set_of_length)
  finally have cnt: "totalPages r = int (card (set ?f))"
    unfolding res(2) Map_size_def by simp
  have "card (set ?f) \<le> length ?f" by (rule card_length)
  also have "\<dots> \<le> length ?us" using sitemapFetched_sub [of P "optRateLimit options" ?us w1] by simp
  finally have "int (card (set ?f)) \<le> int (length ?us)" by simp
  then have le: "totalPages r \<le> min (int (length sitemapPages)) \<lfloor>optMaxPages options\<rfloor>"
    unfolding cnt len .
  have ex: "totalPages r = min (int (length sitemapPages)) \<lfloor>optMaxPages options\<rfloor>"
    if "distinct ?us" "?f = ?us"
  proof -
    have "card (set ?f) = length ?us" unfolding that(2) using that(1) by (rule distinct_card)
    then have "int (card (set ?f)) = int (length ?us)" by simp
    then show ?thesis unfolding cnt len .
  qed
  from res(3) t urls c p cnt len le ex show ?thesis by blast
qed

theorem sitemap_page_count_witness:
  "\<not> isl (fst (crawlWebsite (static_platform sitemapOkSite) crawlOptions 0))
   \<and> 1 \<le> length [''https://example.com/a'', ''https://example.com/b'']
   \<and> 0 \<le> optMaxPages crawlOptions
   \<and> distinct (slice0 [''https://example.com/a'', ''https://example.com/b''] (optMaxPages crawlOptions))
   \<and> sitemapFetched (static_platform sitemapOkSite) (optRateLimit crawlOptions)
        (slice0 [''https://example.com/a'', ''https://example.com/b''] (optMaxPages crawlOptions)) 0
       = slice0 [''https://example.com/a'', ''https://example.com/b''] (optMaxPages crawlOptions)
   \<and> sitemapFound (projr (fst (crawlWebsite (static_platform sitemapOkSite) crawlOptions 0)))
   \<and> trace (snd (crawlWebsite (static_platform sitemapOkSite) crawlOptions 0)) = []
   \<and> totalPages (projr (fst (crawlWebsite (static_platform sitemapOkSite) crawlOptions 0))) = 2"
proof -
  let ?P = "static_platform sitemapOkSite"
  let ?run = "crawlWebsite ?P crawlOptions 0"
  let ?sm = "[''https://example.com/a'', ''https://example.com/b'']"
  have ok: "\<not> isl (fst ?run)" by code_simp
  then have e: "?run = (Inr (projr (fst ?run)), snd ?run)"
    by (cases ?run; cases "fst ?run") auto
  have m: "createMissionControl ?P (extractDomain ?P (c_url crawlOptions)) 0
             = Inr (fst (projr (createMissionControl ?P (extractDomain ?P (c_url crawlOptions)) 0)), 0)"
    by (simp add: createMissionControl_def static_platform_def Let_def)
  have f: "fetchSitemap ?P (sitemapUrlOf ?P (c_url crawlOptions)) 0 = (?sm, 0)"
    by code_simp
  have n: "1 \<le> length ?sm" by simp
  have mp: "0 \<le> optMaxPages crawlOptions" by code_simp
  have mn: "min (int (length ?sm)) \<lfloor>optMaxPages crawlOptions\<rfloor> = 2" by code_simp
  have d: "distinct (slice0 ?sm (optMaxPages crawlOptions))" by code_simp
  have a: "sitemapFetched ?P (optRateLimit crawlOptions) (slice0 ?sm (optMaxPages crawlOptions)) 0
             = slice0 ?sm (optMaxPages crawlOptions)"
    by code_simp
  from sitemap_page_count [OF e m f n mp] d a mn
  have "sitemapFound (projr (fst ?run))" "trace (snd ?run) = []" "totalPages (projr (fst ?run)) = 2"
    by simp_all
  with ok n mp d a show ?thesis by blast
qed

end
